theory Spec2Isabelle
  imports Main
begin

section \<open>Strings\<close>

text \<open>
  Python strings are modelled as \<^typ>\<open>string\<close>: one \<^typ>\<open>char\<close> per code point, for the
  code points 0 to 255. The string operations of Python that the two scripts use are
  written out below.
\<close>

definition newline :: string where
  "newline = [CHR 0x0A]"

definition dquote :: string where
  "dquote = [CHR 0x22]"

text \<open>\<^verbatim>\<open>str.isspace\<close> on one code point below 256: TAB to CR, FS to US, space, NEL, NBSP.\<close>

definition isspace :: "char \<Rightarrow> bool" where
  "isspace c = (let n = (of_char c :: nat) in
     (9 \<le> n \<and> n \<le> 13) \<or> (28 \<le> n \<and> n \<le> 32) \<or> n = 133 \<or> n = 160)"

text \<open>\<^verbatim>\<open>s.rstrip()\<close> and \<^verbatim>\<open>s.strip()\<close> without arguments.\<close>

definition rstrip :: "string \<Rightarrow> string" where
  "rstrip s = rev (dropWhile isspace (rev s))"

definition strip :: "string \<Rightarrow> string" where
  "strip s = dropWhile isspace (rstrip s)"

text \<open>\<^verbatim>\<open>sep.join(xs)\<close>.\<close>

fun join :: "string \<Rightarrow> string list \<Rightarrow> string" where
  "join sep [] = []"
| "join sep [x] = x"
| "join sep (x # y # ys) = x @ sep @ join sep (y # ys)"

text \<open>\<^verbatim>\<open>s.endswith(suffix)\<close> and \<^verbatim>\<open>sub in s\<close>.\<close>

definition endswith :: "string \<Rightarrow> string \<Rightarrow> bool" where
  "endswith s suffix = (length suffix \<le> length s \<and> drop (length s - length suffix) s = suffix)"

fun startswith :: "string \<Rightarrow> string \<Rightarrow> bool" where
  "startswith s [] = True"
| "startswith [] (p # ps) = False"
| "startswith (c # cs) (p # ps) = (c = p \<and> startswith cs ps)"

fun contains :: "string \<Rightarrow> string \<Rightarrow> bool" where
  "contains [] sub = (sub = [])"
| "contains (c # cs) sub = (startswith (c # cs) sub \<or> contains cs sub)"

text \<open>
  \<^verbatim>\<open>s.replace(old, new)\<close> for a non-empty \<open>old\<close>: every occurrence, left to right,
  without overlap.
\<close>

function replace :: "string \<Rightarrow> string \<Rightarrow> string \<Rightarrow> string" where
  "replace old new [] = []"
| "replace old new (c # cs) =
     (if old \<noteq> [] \<and> startswith (c # cs) old
      then new @ replace old new (drop (length old) (c # cs))
      else c # replace old new cs)"
  by pat_completeness auto
termination
  by (relation "measure (\<lambda>(old, new, s). length s)") (auto simp: neq_Nil_conv)

text \<open>\<^verbatim>\<open>format(n, '06x')\<close>: lower-case hexadecimal, zero-padded to width six, sign first.\<close>

definition hex_digit :: "nat \<Rightarrow> char" where
  "hex_digit d = ''0123456789abcdef'' ! (d mod 16)"

function hex_nat :: "nat \<Rightarrow> string" where
  "hex_nat n = (if n < 16 then [hex_digit n] else hex_nat (n div 16) @ [hex_digit (n mod 16)])"
  by pat_completeness auto
termination
  by (relation "measure id") auto

declare hex_nat.simps [simp del]

definition zfill :: "nat \<Rightarrow> string \<Rightarrow> string" where
  "zfill w s = replicate (w - length s) CHR ''0'' @ s"

definition format_06x :: "int \<Rightarrow> string" where
  "format_06x n =
     (if n < 0 then CHR ''-'' # zfill 5 (hex_nat (nat (- n))) else zfill 6 (hex_nat (nat n)))"

section \<open>The cleaner: cells and the colour table\<close>

text \<open>
  The value of \<^verbatim>\<open>char.fg\<close> and \<^verbatim>\<open>char.bg\<close>. \<^verbatim>\<open>char_to_html\<close> tests it for truth, for
  equality with \<^verbatim>\<open>'default'\<close>, and for being a \<^verbatim>\<open>str\<close> or an \<^verbatim>\<open>int\<close>, so the model keeps
  these four cases apart: a string, an integer, \<^verbatim>\<open>None\<close>, and any other (true) object.
\<close>

datatype color = Name string | Number int | NoColor | OtherColor

fun truthy :: "color \<Rightarrow> bool" where
  "truthy (Name s) = (s \<noteq> [])"
| "truthy (Number n) = (n \<noteq> 0)"
| "truthy NoColor = False"
| "truthy OtherColor = True"

text \<open>The fields of a \<^verbatim>\<open>pyte.screens.Char\<close> that the cleaner reads.\<close>

record pyte_char =
  data :: string
  fg :: color
  bg :: color
  bold :: bool

definition default_char :: pyte_char where
  "default_char = \<lparr>data = '' '', fg = Name ''default'', bg = Name ''default'', bold = False\<rparr>"

definition COLORS :: "(string \<times> string) list" where
  "COLORS =
    [(''black'', ''#000000''),
     (''red'', ''#cc0000''),
     (''green'', ''#4e9a06''),
     (''brown'', ''#c4a000''),
     (''yellow'', ''#c4a000''),
     (''blue'', ''#3465a4''),
     (''magenta'', ''#75507b''),
     (''cyan'', ''#06989a''),
     (''white'', ''#d3d7cf''),
     (''default'', ''#d3d7cf''),
     (''brightblack'', ''#555753''),
     (''brightred'', ''#ef2929''),
     (''brightgreen'', ''#8ae234''),
     (''brightyellow'', ''#fce94f''),
     (''brightblue'', ''#729fcf''),
     (''brightmagenta'', ''#ad7fa8''),
     (''brightcyan'', ''#34e2e2''),
     (''brightwhite'', ''#eeeeec'')]"

text \<open>\<^verbatim>\<open>COLORS.get(key, default)\<close>.\<close>

definition COLORS_get :: "string \<Rightarrow> string \<Rightarrow> string" where
  "COLORS_get key dflt = (case map_of COLORS key of Some v \<Rightarrow> v | None \<Rightarrow> dflt)"

text \<open>
  The colour computed in the foreground block and in the background block of
  \<^verbatim>\<open>char_to_html\<close>; the two blocks differ in the fallback constant.
\<close>

definition fg_color :: "color \<Rightarrow> string" where
  "fg_color c =
     (case c of
        Name s \<Rightarrow> COLORS_get s (COLORS_get (''bright'' @ s) ''#d3d7cf'')
      | Number n \<Rightarrow> ''#'' @ format_06x n
      | _ \<Rightarrow> ''#d3d7cf'')"

definition bg_color :: "color \<Rightarrow> string" where
  "bg_color c =
     (case c of
        Name s \<Rightarrow> COLORS_get s (COLORS_get (''bright'' @ s) ''#000000'')
      | Number n \<Rightarrow> ''#'' @ format_06x n
      | _ \<Rightarrow> ''#000000'')"

text \<open>The list \<^verbatim>\<open>styles\<close> at the end of the three style blocks.\<close>

definition styles :: "pyte_char \<Rightarrow> string list" where
  "styles ch =
     (if truthy (fg ch) \<and> fg ch \<noteq> Name ''default'' then [''color:'' @ fg_color (fg ch)] else [])
     @ (if truthy (bg ch) \<and> bg ch \<noteq> Name ''default''
        then [''background-color:'' @ bg_color (bg ch)] else [])
     @ (if bold ch then [''font-weight:bold''] else [])"

text \<open>The \<^verbatim>\<open>if/elif\<close> chain under the comment "Escape HTML".\<close>

definition escape_html :: "string \<Rightarrow> string" where
  "escape_html d =
     (if d = ''<'' then ''&lt;''
      else if d = ''>'' then ''&gt;''
      else if d = ''&'' then ''&amp;''
      else d)"

definition char_to_html :: "pyte_char \<Rightarrow> string" where
  "char_to_html ch =
     (if data ch = '' '' \<and> fg ch = Name ''default'' \<and> bg ch = Name ''default'' then '' ''
      else
        let st = styles ch; d = escape_html (data ch)
        in if st \<noteq> []
           then ''<span style='' @ dquote @ join '';'' st @ dquote @ ''>'' @ d @ ''</span>''
           else d)"

section \<open>The cleaner: rendering a screen\<close>

text \<open>
  A \<^verbatim>\<open>pyte.Screen\<close> as the cleaner reads it: its two dimensions and its buffer. The buffer
  of pyte yields the default cell at every position that was never written, so it is a
  total function of row and column.
\<close>

record screen =
  columns :: nat
  lines :: nat
  buffer :: "nat \<Rightarrow> nat \<Rightarrow> pyte_char"

text \<open>\<^verbatim>\<open>pyte.Screen(columns, lines)\<close>: a blank screen of the given size.\<close>

definition Screen :: "nat \<Rightarrow> nat \<Rightarrow> screen" where
  "Screen c l = \<lparr>columns = c, lines = l, buffer = (\<lambda>y x. default_char)\<rparr>"

text \<open>
  \<^verbatim>\<open>screen.display\<close>, a property of pyte: one string per row, the glyphs of its columns
  joined. (pyte skips the cell after a double-width glyph; no code point below 256 is
  double-width.)
\<close>

definition display :: "screen \<Rightarrow> string list" where
  "display s = map (\<lambda>y. concat (map (\<lambda>x. data (buffer s y x)) [0..<columns s])) [0..<lines s]"

text \<open>The first inner loop of \<^verbatim>\<open>screen_to_html\<close>, for row \<open>y\<close>.\<close>

definition last_char :: "screen \<Rightarrow> nat \<Rightarrow> nat" where
  "last_char s y =
     fold (\<lambda>x lc. if data (buffer s y x) \<noteq> '' '' \<or> bg (buffer s y x) \<noteq> Name ''default''
                  then x else lc)
          [0..<columns s] 0"

text \<open>The second inner loop and the trimming: \<^verbatim>\<open>line_str\<close> for row \<open>y\<close>.\<close>

definition line_str :: "screen \<Rightarrow> nat \<Rightarrow> string" where
  "line_str s y =
     rstrip (concat (map (\<lambda>x. char_to_html (buffer s y x)) [0..<last_char s y + 1]))"

text \<open>The outer loop: the list \<^verbatim>\<open>lines\<close> when the loop over the rows ends.\<close>

definition html_lines :: "screen \<Rightarrow> string list" where
  "html_lines s =
     fold (\<lambda>y ls. let l = line_str s y in if l \<noteq> [] then ls @ [l] else ls) [0..<lines s] []"

text \<open>\<^verbatim>\<open>while lines and not lines[-1].strip(): lines.pop()\<close>\<close>

function pop_blank :: "string list \<Rightarrow> string list" where
  "pop_blank ls = (if ls \<noteq> [] \<and> strip (last ls) = [] then pop_blank (butlast ls) else ls)"
  by pat_completeness auto
termination
  by (relation "measure length") auto

declare pop_blank.simps [simp del]

definition screen_to_html :: "screen \<Rightarrow> string" where
  "screen_to_html s = join newline (pop_blank (html_lines s))"

text \<open>The plain-text branch of \<^verbatim>\<open>clean_log\<close>.\<close>

definition text_lines :: "screen \<Rightarrow> string list" where
  "text_lines s =
     fold (\<lambda>line ls. let stripped = rstrip line in if stripped \<noteq> [] then ls @ [stripped] else ls)
          (display s) []"

definition text_output :: "screen \<Rightarrow> string" where
  "text_output s = join newline (pop_blank (text_lines s))"

text \<open>The HTML branch of \<^verbatim>\<open>clean_log\<close>: the fixed document around the rendered screen.\<close>

definition squote :: string where
  "squote = [CHR 0x27]"

definition html_output :: "string \<Rightarrow> string" where
  "html_output content = join newline
     [''<!DOCTYPE html>'',
      ''<html>'',
      ''<head>'',
      ''<meta charset='' @ dquote @ ''UTF-8'' @ dquote @ ''>'',
      ''<title>Claude Session Log</title>'',
      ''<style>'',
      ''body {'',
      ''    background-color: #1e1e1e;'',
      ''    color: #d4d4d4;'',
      ''    font-family: '' @ squote @ ''Fira Code'' @ squote @ '', '' @ squote @ ''Consolas''
        @ squote @ '', '' @ squote @ ''Monaco'' @ squote @ '', monospace;'',
      ''    font-size: 14px;'',
      ''    padding: 20px;'',
      ''    margin: 0;'',
      ''}'',
      ''pre {'',
      ''    white-space: pre-wrap;'',
      ''    word-wrap: break-word;'',
      ''    margin: 0;'',
      ''    line-height: 1.4;'',
      ''}'',
      ''</style>'',
      ''</head>'',
      ''<body>'',
      ''<pre>'' @ content @ ''</pre>'',
      ''</body>'',
      ''</html>'']"

section \<open>The cleaner: files and the command line\<close>

text \<open>
  What the cleaner touches outside itself. Nothing in the script catches the exception of
  a file or stream operation, so each operation has its outcome in the world:
  \<^item> \<open>disk\<close>: the files that can be opened and read, with their bytes;
  \<^item> \<open>may_write\<close>: the paths \<^verbatim>\<open>open(path, 'w')\<close> succeeds on;
  \<^item> \<open>write_fault\<close>: \<open>None\<close> when \<^verbatim>\<open>f.write\<close> and the closing of the file succeed on the
    path, otherwise what the file is left holding when they raise;
  \<^item> \<open>print_raises\<close>: the texts on which \<^verbatim>\<open>print\<close> to standard output raises;
  \<^item> \<open>warn_raises\<close>: whether \<^verbatim>\<open>print\<close> to standard error raises;
  \<^item> \<open>flush_fails\<close>: whether the interpreter fails to flush standard output when it
    exits (a full device);
  \<^item> \<open>stdout\<close> and \<open>stderr\<close>: what was printed, one entry for each \<^verbatim>\<open>print\<close>.
\<close>

record world =
  disk :: "string \<rightharpoonup> string"
  may_write :: "string \<Rightarrow> bool"
  write_fault :: "string \<Rightarrow> string option"
  print_raises :: "string \<Rightarrow> bool"
  warn_raises :: bool
  flush_fails :: bool
  stdout :: "string list"
  stderr :: "string list"

text \<open>
  The exceptions: the one a file operation raises, with the path, and the one a \<^verbatim>\<open>print\<close>
  raises, with the name of the stream.
\<close>

datatype error = OSError string | PrintError string

text \<open>\<^verbatim>\<open>print(text)\<close> and \<^verbatim>\<open>print(text, file=sys.stderr)\<close>.\<close>

definition print_out :: "string \<Rightarrow> world \<Rightarrow> world \<times> (error + unit)" where
  "print_out t w =
     (if print_raises w t then (w, Inl (PrintError ''stdout''))
      else (w\<lparr>stdout := stdout w @ [t]\<rparr>, Inr ()))"

definition print_err :: "string \<Rightarrow> world \<Rightarrow> world \<times> (error + unit)" where
  "print_err t w =
     (if warn_raises w then (w, Inl (PrintError ''stderr''))
      else (w\<lparr>stderr := stderr w @ [t]\<rparr>, Inr ()))"


text \<open>
  \<^verbatim>\<open>data.index(b'\n')\<close> and the slice after it; the bytes are left as they are when there
  is no newline.
\<close>

definition skip_header :: "string \<Rightarrow> string" where
  "skip_header d = (if CHR 0x0A \<in> set d then tl (dropWhile (\<lambda>c. c \<noteq> CHR 0x0A) d) else d)"

text \<open>The value of \<^verbatim>\<open>output\<close> in \<^verbatim>\<open>clean_log\<close>, from the flag and the screen after playback.\<close>

definition output_of :: "bool \<Rightarrow> screen \<Rightarrow> string" where
  "output_of html scr = (if html then html_output (screen_to_html scr) else text_output scr)"

text \<open>
  The last statement of \<^verbatim>\<open>clean_log\<close>: the output goes to the file when \<^verbatim>\<open>output_file\<close> is
  true (a non-empty string), to standard output otherwise. \<^verbatim>\<open>open(..., 'w')\<close> empties the
  file before anything is written.
\<close>

definition deliver :: "string option \<Rightarrow> string \<Rightarrow> world \<Rightarrow> world \<times> (error + string)" where
  "deliver output_file output w =
     (case output_file of
        None \<Rightarrow>
          (case print_out output w of
             (w', Inl e) \<Rightarrow> (w', Inl e)
           | (w', Inr u) \<Rightarrow> (w', Inr output))
      | Some p \<Rightarrow>
          if p = [] then
            (case print_out output w of
               (w', Inl e) \<Rightarrow> (w', Inl e)
             | (w', Inr u) \<Rightarrow> (w', Inr output))
          else if \<not> may_write w p then (w, Inl (OSError p))
          else
            (case write_fault w p of
               Some left \<Rightarrow> (w\<lparr>disk := (disk w)(p \<mapsto> left)\<rparr>, Inl (OSError p))
             | None \<Rightarrow>
                 (case print_out (''Written to: '' @ p) (w\<lparr>disk := (disk w)(p \<mapsto> output)\<rparr>) of
                    (w', Inl e) \<Rightarrow> (w', Inl e)
                  | (w', Inr u) \<Rightarrow> (w', Inr output))))"

text \<open>
  \<^verbatim>\<open>clean_log\<close>. The terminal emulation is pyte's, a library outside the repository, so
  decoding and \<^verbatim>\<open>stream.feed\<close> together are the parameter \<open>feed\<close>: from the new screen
  and the bytes to the screen after playback, with the message of the exception when one
  was raised. The result is the world after the call and what the call returned or raised.
\<close>

definition clean_log ::
  "(screen \<Rightarrow> string \<Rightarrow> screen \<times> string option) \<Rightarrow> string \<Rightarrow> string option \<Rightarrow> bool \<Rightarrow> world
     \<Rightarrow> world \<times> (error + string)" where
  "clean_log feed input_file output_file html w =
     (case disk w input_file of
        None \<Rightarrow> (w, Inl (OSError input_file))
      | Some raw \<Rightarrow>
          let (scr, warning) = feed (Screen 200 10000) (skip_header raw)
          in case (case warning of
                     None \<Rightarrow> (w, Inr ())
                   | Some e \<Rightarrow> print_err (''Warning: '' @ e) w) of
               (w1, Inl e) \<Rightarrow> (w1, Inl e)
             | (w1, Inr u) \<Rightarrow> deliver output_file (output_of html scr) w1)"






section \<open>The server\<close>

text \<open>
  A file of the log directory: its modification time and its text. The time is a float in
  Python; the server only compares two of them and prints one into the cache key, so the
  model takes any linearly ordered type for it, and Python's \<^verbatim>\<open>str\<close> on it as the
  parameter \<open>fmt\<close>.
\<close>

record 't log_file =
  mtime :: 't
  content :: string

text \<open>The accesses outside the process, in the order they happen.\<close>

datatype fs_op = Exists string | Stat string | ReadText string | Subprocess string

text \<open>
  The state of the server: the files of \<^verbatim>\<open>LOG_DIR\<close> by name, the dictionary
  \<^verbatim>\<open>html_cache\<close>, and the accesses made so far.
\<close>

record 't server =
  log_dir :: "string \<rightharpoonup> 't log_file"
  html_cache :: "string \<rightharpoonup> string"
  trace :: "fs_op list"

definition touch :: "fs_op list \<Rightarrow> 't server \<Rightarrow> 't server" where
  "touch ops s = s\<lparr>trace := trace s @ ops\<rparr>"

text \<open>The f-string \<^verbatim>\<open>f"{logfile}:{mtime}"\<close>.\<close>

definition cache_key :: "('t \<Rightarrow> string) \<Rightarrow> string \<Rightarrow> 't \<Rightarrow> string" where
  "cache_key fmt logfile m = logfile @ '':'' @ fmt m"

definition error_page :: "string \<Rightarrow> string" where
  "error_page e = ''<html><body><pre>Error converting log: '' @ e @ ''</pre></body></html>''"

text \<open>
  \<^verbatim>\<open>convert_log_to_html\<close>. The parameter \<open>run\<close> is \<^verbatim>\<open>subprocess.run\<close> on the clean script
  for the named log: \<open>Inl e\<close> when it raises an exception whose text is \<open>e\<close>, otherwise
  \<open>Inr\<close> of the return code and the captured standard output.
\<close>

definition convert_log_to_html ::
  "('t::linorder \<Rightarrow> string) \<Rightarrow> (string \<Rightarrow> string + int \<times> string) \<Rightarrow> string \<Rightarrow> 't server
     \<Rightarrow> string option \<times> 't server" where
  "convert_log_to_html fmt run logfile s =
     (let html_path = replace ''.log'' ''.html'' logfile in
      case log_dir s logfile of
        None \<Rightarrow> (None, touch [Exists logfile] s)
      | Some lg \<Rightarrow>
          let fresh = (case log_dir s html_path of
                         None \<Rightarrow> None
                       | Some h \<Rightarrow> if mtime h \<ge> mtime lg then Some (content h) else None);
              probe = Exists logfile # Exists html_path #
                      (if log_dir s html_path = None then [] else [Stat html_path, Stat logfile])
          in case fresh of
               Some page \<Rightarrow> (Some page, touch (probe @ [ReadText html_path]) s)
             | None \<Rightarrow>
                 let key = cache_key fmt logfile (mtime lg);
                     s1 = touch (probe @ [Stat logfile]) s
                 in case html_cache s key of
                      Some page \<Rightarrow> (Some page, s1)
                    | None \<Rightarrow>
                        let s2 = touch [Subprocess logfile] s1
                        in case run logfile of
                             Inl e \<Rightarrow> (Some (error_page e), s2)
                           | Inr (returncode, out) \<Rightarrow>
                               if returncode = 0
                               then (Some out, s2\<lparr>html_cache := (html_cache s2)(key \<mapsto> out)\<rparr>)
                               else (None, s2))"

datatype response = Abort nat | Response string string

text \<open>\<^verbatim>\<open>view_log\<close>: the response (an abort with its status, or a body with its MIME type).\<close>

definition view_log ::
  "('t::linorder \<Rightarrow> string) \<Rightarrow> (string \<Rightarrow> string + int \<times> string) \<Rightarrow> string \<Rightarrow> 't server
     \<Rightarrow> response \<times> 't server" where
  "view_log fmt run filename s =
     (if contains filename ''/'' \<or> contains filename ''..'' then (Abort 400, s)
      else if \<not> endswith filename ''.log'' then (Abort 400, s)
      else case convert_log_to_html fmt run filename s of
             (None, s') \<Rightarrow> (Abort 404, s')
           | (Some html, s') \<Rightarrow> (Response html ''text/html'', s'))"

section \<open>Writing glyphs on the grid\<close>

text \<open>
  Modelled from the spec: the state of the terminal state engine. The repository has no
  code for the engine (the script hands the bytes to pyte), so its state follows the data
  model of the specification: the grid and the cursor, row and column counted from 0.
\<close>

record engine =
  grid :: screen
  cursor_row :: nat
  cursor_col :: nat

text \<open>
  Modelled from the spec: the start of a playback, missing from the repository as the
  whole engine is. The grid is as it was created and the cursor is at (0,0).
\<close>

definition start :: "screen \<Rightarrow> engine" where
  "start s = \<lparr>grid = s, cursor_row = 0, cursor_col = 0\<rparr>"

text \<open>
  Modelled from the spec: writing one cell of the grid, an operation of the missing
  engine. Every other cell stays as it is.
\<close>

definition set_cell :: "nat \<Rightarrow> nat \<Rightarrow> pyte_char \<Rightarrow> screen \<Rightarrow> screen" where
  "set_cell y x c s = s\<lparr>buffer := (\<lambda>y' x'. if y' = y \<and> x' = x then c else buffer s y' x')\<rparr>"

text \<open>
  Modelled from the spec: scrolling the grid, an operation of the missing engine. Every row
  moves up by one, the first row is lost and the last row is blank.
\<close>

definition scroll_up :: "screen \<Rightarrow> screen" where
  "scroll_up s = s\<lparr>buffer := (\<lambda>y x. if y + 1 < lines s then buffer s (y + 1) x else default_char)\<rparr>"

text \<open>
  Modelled from the spec: the writing of one glyph by the missing engine, in the words of
  the specification. The glyph, with the attributes that are active, is written into the
  cell at the cursor, then the cursor advances one column; on reaching the last column
  the cursor wraps to the first column of the next row, and the grid scrolls when the
  bottom is exceeded. (So writing as many glyphs as the grid is wide fills one row and
  leaves the cursor at the start of the next row.)
\<close>

definition put_glyph :: "pyte_char \<Rightarrow> engine \<Rightarrow> engine" where
  "put_glyph c e =
     (let s = set_cell (cursor_row e) (cursor_col e) c (grid e)
      in if cursor_col e + 1 < columns s
         then e\<lparr>grid := s, cursor_col := cursor_col e + 1\<rparr>
         else if cursor_row e + 1 < lines s
         then e\<lparr>grid := s, cursor_row := cursor_row e + 1, cursor_col := 0\<rparr>
         else e\<lparr>grid := scroll_up s, cursor_col := 0\<rparr>)"

text \<open>
  Modelled from the spec: the missing engine on a sequence of glyphs, written one after
  the other. Control sequences are not part of this model.
\<close>

definition write_glyphs :: "pyte_char list \<Rightarrow> engine \<Rightarrow> engine" where
  "write_glyphs cs e = fold put_glyph cs e"

text \<open>
  Modelled from the spec: the missing playback on a stream without control sequences.
  Every byte is one glyph with default attributes, written from the top left corner of
  the screen it is given; nothing is raised.
\<close>

definition text_playback :: "screen \<Rightarrow> string \<Rightarrow> screen \<times> string option" where
  "text_playback s d =
     (grid (write_glyphs
              (map (\<lambda>c. \<lparr>data = [c], fg = Name ''default'', bg = Name ''default'', bold = False\<rparr>) d)
              (start s)),
      None)"

section \<open>Example inputs\<close>

text \<open>Cells.\<close>

definition glyph :: "string \<Rightarrow> pyte_char" where
  "glyph d = \<lparr>data = d, fg = Name ''default'', bg = Name ''default'', bold = False\<rparr>"

definition plain_a :: pyte_char where
  "plain_a = glyph ''a''"

definition bold_red_lt :: pyte_char where
  "bold_red_lt = \<lparr>data = ''<'', fg = Name ''red'', bg = Name ''default'', bold = True\<rparr>"

definition red_space :: pyte_char where
  "red_space = \<lparr>data = '' '', fg = Name ''red'', bg = Name ''default'', bold = False\<rparr>"

text \<open>Three rows of two columns: \<open>a\<close>, a blank row, \<open>b\<close>.\<close>

definition gap_screen :: screen where
  "gap_screen = \<lparr>columns = 2, lines = 3,
     buffer = (\<lambda>y x. if y = 0 \<and> x = 0 then glyph ''a''
                     else if y = 2 \<and> x = 0 then glyph ''b'' else default_char)\<rparr>"

text \<open>One row of four columns: \<open>a\<close>, a blank, a space with a red foreground, a blank.\<close>

definition red_space_screen :: screen where
  "red_space_screen = \<lparr>columns = 4, lines = 1,
     buffer = (\<lambda>y x. if x = 0 then glyph ''a'' else if x = 2 then red_space else default_char)\<rparr>"



definition log_world :: world where
  "log_world = \<lparr>disk = [''session.log'' \<mapsto> ''Script started'' @ newline @ ''Hello''],
     may_write = (\<lambda>p. p \<noteq> ''/proc/out.txt''),
     write_fault = (\<lambda>p. if p = ''/dev/full'' then Some [] else None),
     print_raises = (\<lambda>t. False), warn_raises = False, flush_fails = False,
     stdout = [], stderr = []\<rparr>"


text \<open>
  For the server: times as natural numbers printed in unary, three outcomes of the
  subprocess, and three states of the log directory and the cache.
\<close>

definition tally :: "nat \<Rightarrow> string" where
  "tally n = replicate n CHR ''1''"

definition ok_run :: "string \<Rightarrow> string + int \<times> string" where
  "ok_run logfile = Inr (0, ''<html>ok</html>'')"

definition failing_run :: "string \<Rightarrow> string + int \<times> string" where
  "failing_run logfile = Inr (1, ''Traceback'')"

definition raising_run :: "string \<Rightarrow> string + int \<times> string" where
  "raising_run logfile = Inl ''timed out''"

definition one_log :: "nat server" where
  "one_log = \<lparr>log_dir = [''a.log'' \<mapsto> \<lparr>mtime = 5, content = ''raw''\<rparr>],
     html_cache = Map.empty, trace = []\<rparr>"

definition stale_artifact :: "nat server" where
  "stale_artifact =
     \<lparr>log_dir = [''a.log'' \<mapsto> \<lparr>mtime = 5, content = ''raw''\<rparr>,
                 ''a.html'' \<mapsto> \<lparr>mtime = 3, content = ''old page''\<rparr>],
      html_cache = [''a.log:111'' \<mapsto> ''old cached page''], trace = []\<rparr>"

definition fresh_artifact :: "nat server" where
  "fresh_artifact =
     \<lparr>log_dir = [''a.log'' \<mapsto> \<lparr>mtime = 5, content = ''raw''\<rparr>,
                 ''a.html'' \<mapsto> \<lparr>mtime = 7, content = ''new page''\<rparr>],
      html_cache = Map.empty, trace = []\<rparr>"

section \<open>One cell as HTML\<close>

lemma styles_empty_iff:
  "styles ch = [] \<longleftrightarrow>
     \<not> (truthy (fg ch) \<and> fg ch \<noteq> Name ''default'') \<and>
     \<not> (truthy (bg ch) \<and> bg ch \<noteq> Name ''default'') \<and> \<not> bold ch"
  by (simp add: styles_def)

lemma color_style_mem:
  "''color:'' @ v \<in> set (styles ch) \<longleftrightarrow>
     truthy (fg ch) \<and> fg ch \<noteq> Name ''default'' \<and> v = fg_color (fg ch)"
  by (auto simp: styles_def)

lemma background_style_mem:
  "''background-color:'' @ v \<in> set (styles ch) \<longleftrightarrow>
     truthy (bg ch) \<and> bg ch \<noteq> Name ''default'' \<and> v = bg_color (bg ch)"
  by (auto simp: styles_def)

lemma bold_style_mem: "''font-weight:bold'' \<in> set (styles ch) \<longleftrightarrow> bold ch"
  by (auto simp: styles_def)

lemma char_to_html_blank:
  "data ch = '' '' \<Longrightarrow> fg ch = Name ''default'' \<Longrightarrow> bg ch = Name ''default'' \<Longrightarrow>
     char_to_html ch = '' ''"
  by (simp add: char_to_html_def)

lemma char_to_html_styled:
  "\<not> (data ch = '' '' \<and> fg ch = Name ''default'' \<and> bg ch = Name ''default'') \<Longrightarrow>
   styles ch \<noteq> [] \<Longrightarrow>
     char_to_html ch =
       ''<span style='' @ dquote @ join '';'' (styles ch) @ dquote @ ''>''
         @ escape_html (data ch) @ ''</span>''"
  by (simp add: char_to_html_def Let_def)

lemma char_to_html_bare: "styles ch = [] \<Longrightarrow> char_to_html ch = escape_html (data ch)"
  by (auto simp: char_to_html_def Let_def escape_html_def)

text \<open>
  Claim C3 as stated fails: a cell that is not the blank default cell need not be wrapped.
  The cell \<open>a\<close> with default colours and no bold is rendered as the bare glyph.
\<close>

theorem unstyled_glyph_not_wrapped_counterexample:
  "data plain_a \<noteq> '' '' \<and> char_to_html plain_a = ''a'' \<and>
   \<not> startswith (char_to_html plain_a) ''<span''"
  by (simp add: plain_a_def glyph_def char_to_html_def styles_def escape_html_def)

text \<open>
  Claim C3, amended. \<^verbatim>\<open>char_to_html\<close> emits a bare space for a space with default
  foreground and default background, whatever its bold flag. Any other cell is wrapped in
  a \<^verbatim>\<open>span\<close> when at least one style applies to it: a foreground that is true and not
  \<^verbatim>\<open>'default'\<close>, a background that is true and not \<^verbatim>\<open>'default'\<close>, or the bold flag; the
  span carries \<^verbatim>\<open>color\<close>, \<^verbatim>\<open>background-color\<close> and \<^verbatim>\<open>font-weight:bold\<close> for exactly
  those that apply. A cell to which no style applies is emitted as its escaped glyph, with
  no wrapping.
\<close>

theorem char_to_html_wrapping:
  "(data ch = '' '' \<and> fg ch = Name ''default'' \<and> bg ch = Name ''default''
      \<longrightarrow> char_to_html ch = '' '') \<and>
   (\<not> (data ch = '' '' \<and> fg ch = Name ''default'' \<and> bg ch = Name ''default'') \<and>
    ((truthy (fg ch) \<and> fg ch \<noteq> Name ''default'') \<or>
     (truthy (bg ch) \<and> bg ch \<noteq> Name ''default'') \<or> bold ch)
      \<longrightarrow> char_to_html ch =
            ''<span style='' @ dquote @ join '';'' (styles ch) @ dquote @ ''>''
              @ escape_html (data ch) @ ''</span>'') \<and>
   (\<not> (truthy (fg ch) \<and> fg ch \<noteq> Name ''default'') \<and>
    \<not> (truthy (bg ch) \<and> bg ch \<noteq> Name ''default'') \<and> \<not> bold ch
      \<longrightarrow> char_to_html ch = escape_html (data ch)) \<and>
   (''color:'' @ fg_color (fg ch) \<in> set (styles ch)
      \<longleftrightarrow> truthy (fg ch) \<and> fg ch \<noteq> Name ''default'') \<and>
   (''background-color:'' @ bg_color (bg ch) \<in> set (styles ch)
      \<longleftrightarrow> truthy (bg ch) \<and> bg ch \<noteq> Name ''default'') \<and>
   (''font-weight:bold'' \<in> set (styles ch) \<longleftrightarrow> bold ch)"
proof (intro conjI impI)
  assume "data ch = '' '' \<and> fg ch = Name ''default'' \<and> bg ch = Name ''default''"
  then show "char_to_html ch = '' ''" by (simp add: char_to_html_blank)
next
  assume a: "\<not> (data ch = '' '' \<and> fg ch = Name ''default'' \<and> bg ch = Name ''default'') \<and>
    ((truthy (fg ch) \<and> fg ch \<noteq> Name ''default'') \<or>
     (truthy (bg ch) \<and> bg ch \<noteq> Name ''default'') \<or> bold ch)"
  then have "styles ch \<noteq> []" by (simp add: styles_empty_iff)
  with a show "char_to_html ch =
            ''<span style='' @ dquote @ join '';'' (styles ch) @ dquote @ ''>''
              @ escape_html (data ch) @ ''</span>''"
    by (simp add: char_to_html_styled)
next
  assume "\<not> (truthy (fg ch) \<and> fg ch \<noteq> Name ''default'') \<and>
    \<not> (truthy (bg ch) \<and> bg ch \<noteq> Name ''default'') \<and> \<not> bold ch"
  then have "styles ch = []" by (simp add: styles_empty_iff)
  then show "char_to_html ch = escape_html (data ch)" by (rule char_to_html_bare)
next
  show "''color:'' @ fg_color (fg ch) \<in> set (styles ch)
      \<longleftrightarrow> truthy (fg ch) \<and> fg ch \<noteq> Name ''default''"
    using color_style_mem [of "fg_color (fg ch)" ch] by simp
next
  show "''background-color:'' @ bg_color (bg ch) \<in> set (styles ch)
      \<longleftrightarrow> truthy (bg ch) \<and> bg ch \<noteq> Name ''default''"
    using background_style_mem [of "bg_color (bg ch)" ch] by simp
next
  show "''font-weight:bold'' \<in> set (styles ch) \<longleftrightarrow> bold ch" by (rule bold_style_mem)
qed

text \<open>The three cases of the amended claim at the default cell, a bold red \<open><\<close> and a plain \<open>a\<close>.\<close>

theorem char_to_html_wrapping_witness:
  "char_to_html default_char = '' '' \<and>
   char_to_html bold_red_lt =
     ''<span style='' @ dquote @ ''color:#cc0000;font-weight:bold'' @ dquote @ ''>&lt;</span>'' \<and>
   char_to_html plain_a = ''a''"
proof -
  have 1: "char_to_html default_char = '' ''"
    using char_to_html_wrapping [of default_char] by (simp add: default_char_def)
  have 2: "char_to_html bold_red_lt =
     ''<span style='' @ dquote @ ''color:#cc0000;font-weight:bold'' @ dquote @ ''>&lt;</span>''"
    using char_to_html_wrapping [of bold_red_lt]
    by (simp add: bold_red_lt_def styles_def fg_color_def COLORS_get_def COLORS_def
        escape_html_def)
  have 3: "char_to_html plain_a = ''a''"
    using char_to_html_wrapping [of plain_a] by (simp add: plain_a_def glyph_def escape_html_def)
  from 1 2 3 show ?thesis by simp
qed

text \<open>
  Claim C4 as stated fails for a name outside the table: the foreground block falls back to
  \<^verbatim>\<open>#d3d7cf\<close>, the background block to \<^verbatim>\<open>#000000\<close>.
\<close>

theorem fallback_color_differs_counterexample:
  "fg_color (Name ''orange'') \<noteq> bg_color (Name ''orange'')"
  by (simp add: fg_color_def bg_color_def COLORS_get_def COLORS_def)

text \<open>
  Claim C4, amended. The colour mapping is a function of the colour value alone. An integer
  colour, and a name that the table holds (itself or with the prefix \<^verbatim>\<open>bright\<close>), map to
  the same hex value in the foreground role and in the background role, and a cell with
  such a colour in both roles gets two styles that differ in the CSS property name only. A
  name the table does not hold maps to \<^verbatim>\<open>#d3d7cf\<close> as a foreground and to \<^verbatim>\<open>#000000\<close>
  as a background.
\<close>

theorem color_mapping_roles:
  "fg_color (Number n) = bg_color (Number n) \<and>
   (map_of COLORS name \<noteq> None \<or> map_of COLORS (''bright'' @ name) \<noteq> None
      \<longrightarrow> fg_color (Name name) = bg_color (Name name)) \<and>
   (map_of COLORS name = None \<and> map_of COLORS (''bright'' @ name) = None
      \<longrightarrow> fg_color (Name name) = ''#d3d7cf'' \<and> bg_color (Name name) = ''#000000'') \<and>
   (truthy c \<and> c \<noteq> Name ''default'' \<and> fg_color c = bg_color c
      \<longrightarrow> styles \<lparr>data = d, fg = c, bg = c, bold = False\<rparr>
            = [''color:'' @ fg_color c, ''background-color:'' @ fg_color c])"
  by (auto simp: fg_color_def bg_color_def COLORS_get_def styles_def split: option.splits)

text \<open>The amended claim at the name \<open>red\<close>, which the table holds, and at \<open>orange\<close>.\<close>

theorem color_mapping_roles_witness:
  "fg_color (Name ''red'') = ''#cc0000'' \<and> bg_color (Name ''red'') = ''#cc0000'' \<and>
   fg_color (Name ''orange'') = ''#d3d7cf'' \<and> bg_color (Name ''orange'') = ''#000000'' \<and>
   styles \<lparr>data = ''x'', fg = Name ''red'', bg = Name ''red'', bold = False\<rparr>
     = [''color:#cc0000'', ''background-color:#cc0000'']"
proof -
  have r: "map_of COLORS ''red'' = Some ''#cc0000''" by (simp add: COLORS_def)
  have o: "map_of COLORS ''orange'' = None \<and> map_of COLORS (''bright'' @ ''orange'') = None"
    by (simp add: COLORS_def)
  have f: "fg_color (Name ''red'') = ''#cc0000''"
    by (simp add: fg_color_def COLORS_get_def r)
  have 1: "bg_color (Name ''red'') = ''#cc0000''"
    using color_mapping_roles [of 0 "''red''" "Name ''red''" "''x''"] r f by simp
  have 2: "fg_color (Name ''orange'') = ''#d3d7cf'' \<and> bg_color (Name ''orange'') = ''#000000''"
    using color_mapping_roles [of 0 "''orange''" "Name ''red''" "''x''"] o by simp
  have 3: "styles \<lparr>data = ''x'', fg = Name ''red'', bg = Name ''red'', bold = False\<rparr>
     = [''color:#cc0000'', ''background-color:#cc0000'']"
    using color_mapping_roles [of 0 "''red''" "Name ''red''" "''x''"] r f 1 by simp
  from f 1 2 3 show ?thesis by simp
qed

text \<open>
  Claim C5. In the glyph of a cell, \<open><\<close>, \<open>>\<close> and \<open>&\<close> become \<^verbatim>\<open>&lt;\<close>, \<^verbatim>\<open>&gt;\<close> and
  \<^verbatim>\<open>&amp;\<close>; every other glyph, the double quotation mark among them, is emitted as it
  is. The glyph part of what \<^verbatim>\<open>char_to_html\<close> returns is this escaped glyph, bare or
  inside the span.
\<close>

theorem html_escaping_scope:
  "escape_html ''<'' = ''&lt;'' \<and> escape_html ''>'' = ''&gt;'' \<and>
   escape_html ''&'' = ''&amp;'' \<and> escape_html dquote = dquote \<and>
   (d \<noteq> ''<'' \<and> d \<noteq> ''>'' \<and> d \<noteq> ''&'' \<longrightarrow> escape_html d = d) \<and>
   (styles ch = [] \<longrightarrow> char_to_html ch = escape_html (data ch)) \<and>
   (styles ch \<noteq> [] \<and> \<not> (data ch = '' '' \<and> fg ch = Name ''default'' \<and> bg ch = Name ''default'')
      \<longrightarrow> char_to_html ch =
            ''<span style='' @ dquote @ join '';'' (styles ch) @ dquote @ ''>''
              @ escape_html (data ch) @ ''</span>'')"
  by (simp add: char_to_html_styled char_to_html_bare) (simp add: escape_html_def dquote_def)

text \<open>The claim at a quotation mark with default attributes and at a bold red \<open><\<close>.\<close>

theorem html_escaping_scope_witness:
  "escape_html dquote = dquote \<and> char_to_html (glyph dquote) = dquote \<and>
   char_to_html bold_red_lt =
     ''<span style='' @ dquote @ ''color:#cc0000;font-weight:bold'' @ dquote @ ''>&lt;</span>''"
proof -
  have q: "dquote \<noteq> ''<'' \<and> dquote \<noteq> ''>'' \<and> dquote \<noteq> ''&''" by (simp add: dquote_def)
  have s0: "styles (glyph dquote) = []" by (simp add: styles_def glyph_def)
  have s1: "styles bold_red_lt = [''color:#cc0000'', ''font-weight:bold'']"
    by (simp add: styles_def bold_red_lt_def fg_color_def COLORS_get_def COLORS_def)
  have 1: "escape_html dquote = dquote \<and> char_to_html (glyph dquote) = dquote"
    using html_escaping_scope [of dquote "glyph dquote"] q s0 by (simp add: glyph_def)
  have 2: "char_to_html bold_red_lt =
     ''<span style='' @ dquote @ ''color:#cc0000;font-weight:bold'' @ dquote @ ''>&lt;</span>''"
    using html_escaping_scope [of "''<''" bold_red_lt] s1 by (simp add: bold_red_lt_def)
  from 1 2 show ?thesis by simp
qed

section \<open>Rows and lines\<close>

lemma fold_keep_nonempty:
  "fold (\<lambda>y ls. let l = f y in if l \<noteq> [] then ls @ [l] else ls) ys acc
     = acc @ filter (\<lambda>l. l \<noteq> []) (map f ys)"
  by (induction ys arbitrary: acc) (simp_all add: Let_def)

lemma html_lines_filter:
  "html_lines s = filter (\<lambda>l. l \<noteq> []) (map (line_str s) [0..<lines s])"
  unfolding html_lines_def by (simp add: fold_keep_nonempty)

lemma text_lines_filter: "text_lines s = filter (\<lambda>l. l \<noteq> []) (map rstrip (display s))"
  unfolding text_lines_def using fold_keep_nonempty [of rstrip "display s" "[]"] by simp

lemma rstrip_last: "rstrip x \<noteq> [] \<Longrightarrow> \<not> isspace (last (rstrip x))"
proof -
  assume "rstrip x \<noteq> []"
  then have ne: "dropWhile isspace (rev x) \<noteq> []" by (simp add: rstrip_def)
  then have "\<not> isspace (hd (dropWhile isspace (rev x)))" by (rule hd_dropWhile)
  with ne show ?thesis by (simp add: rstrip_def last_rev)
qed

lemma rstrip_fixed: "l \<noteq> [] \<Longrightarrow> \<not> isspace (last l) \<Longrightarrow> rstrip l = l"
proof -
  assume "l \<noteq> []" and "\<not> isspace (last l)"
  then have "rev l \<noteq> [] \<and> \<not> isspace (hd (rev l))" by (simp add: hd_rev)
  then have "dropWhile isspace (rev l) = rev l" by (cases "rev l") auto
  then show ?thesis by (simp add: rstrip_def)
qed

lemma strip_nonempty: "l \<noteq> [] \<Longrightarrow> \<not> isspace (last l) \<Longrightarrow> strip l \<noteq> []"
proof -
  assume ne: "l \<noteq> []" and ns: "\<not> isspace (last l)"
  then have "rstrip l = l" by (rule rstrip_fixed)
  moreover from ne ns have "\<exists>c \<in> set l. \<not> isspace c" using last_in_set by blast
  ultimately show ?thesis by (simp add: strip_def dropWhile_eq_Nil_conv)
qed

lemma pop_blank_id: "(\<And>l. l \<in> set ls \<Longrightarrow> strip l \<noteq> []) \<Longrightarrow> pop_blank ls = ls"
proof -
  assume "\<And>l. l \<in> set ls \<Longrightarrow> strip l \<noteq> []"
  then have n: "\<not> (ls \<noteq> [] \<and> strip (last ls) = [])" using last_in_set by blast
  show ?thesis by (subst pop_blank.simps) (use n in auto)
qed

lemma pop_blank_html_lines: "pop_blank (html_lines s) = html_lines s"
proof (rule pop_blank_id)
  fix l assume "l \<in> set (html_lines s)"
  then obtain y where "l = line_str s y" and "l \<noteq> []" by (auto simp: html_lines_filter)
  then have "l \<noteq> [] \<and> \<not> isspace (last l)" using rstrip_last by (auto simp: line_str_def)
  then show "strip l \<noteq> []" by (simp add: strip_nonempty)
qed

lemma pop_blank_text_lines: "pop_blank (text_lines s) = text_lines s"
proof (rule pop_blank_id)
  fix l assume "l \<in> set (text_lines s)"
  then obtain x where "l = rstrip x" and "l \<noteq> []" by (auto simp: text_lines_filter)
  then have "l \<noteq> [] \<and> \<not> isspace (last l)" using rstrip_last by auto
  then show "strip l \<noteq> []" by (simp add: strip_nonempty)
qed

lemma isspace_space: "isspace CHR '' ''"
  by (simp add: isspace_def)

lemma rstrip_spaces: "set x \<subseteq> {CHR '' ''} \<Longrightarrow> rstrip x = []"
  by (auto simp: rstrip_def dropWhile_eq_Nil_conv isspace_space)

lemma last_char_blank:
  "(\<And>x. x < n \<Longrightarrow> data (buffer s y x) = '' '' \<and> bg (buffer s y x) = Name ''default'') \<Longrightarrow>
   fold (\<lambda>x lc. if data (buffer s y x) \<noteq> '' '' \<or> bg (buffer s y x) \<noteq> Name ''default''
                  then x else lc) [0..<n] 0 = 0"
  by (induction n) simp_all

lemma line_str_blank:
  assumes "0 < columns s" and "\<And>x. x < columns s \<Longrightarrow> buffer s y x = default_char"
  shows "line_str s y = []"
proof -
  have "last_char s y = 0"
    unfolding last_char_def by (rule last_char_blank) (simp add: assms default_char_def)
  moreover have "char_to_html (buffer s y 0) = '' ''"
    using assms by (simp add: char_to_html_def default_char_def)
  ultimately show ?thesis by (simp add: line_str_def rstrip_def isspace_space)
qed

lemma display_nth:
  "y < lines s \<Longrightarrow> display s ! y = concat (map (\<lambda>x. data (buffer s y x)) [0..<columns s])"
  by (simp add: display_def)

lemma display_blank:
  assumes "y < lines s" and "\<And>x. x < columns s \<Longrightarrow> buffer s y x = default_char"
  shows "rstrip (display s ! y) = []"
proof (rule rstrip_spaces)
  show "set (display s ! y) \<subseteq> {CHR '' ''}"
    using assms by (auto simp: display_nth default_char_def)
qed

text \<open>
  Claim C1 as stated fails: the HTML rendering drops an interior blank row too. On three
  rows \<open>a\<close>, blank, \<open>b\<close> it returns two lines, as the text rendering does, and no empty
  line between them.
\<close>

theorem html_interior_blank_row_counterexample:
  "buffer gap_screen 0 0 = glyph ''a'' \<and> buffer gap_screen 1 0 = default_char \<and>
   buffer gap_screen 1 1 = default_char \<and> buffer gap_screen 2 0 = glyph ''b'' \<and>
   text_output gap_screen = ''a'' @ newline @ ''b'' \<and>
   screen_to_html gap_screen = ''a'' @ newline @ ''b'' \<and>
   screen_to_html gap_screen \<noteq> ''a'' @ newline @ newline @ ''b''"
  by (simp add: gap_screen_def) code_simp

text \<open>
  Claim C1, amended. Both renderings keep exactly the rows that are not empty after
  trimming, in order, joined by newlines: a fully blank row, interior or trailing, is left
  out of the text rendering and out of the HTML rendering alike, and neither output holds
  an empty line.
\<close>

theorem blank_rows_dropped_by_both_renderings:
  "screen_to_html s = join newline (filter (\<lambda>l. l \<noteq> []) (map (line_str s) [0..<lines s])) \<and>
   text_output s = join newline (filter (\<lambda>l. l \<noteq> []) (map rstrip (display s))) \<and>
   (y < lines s \<and> 0 < columns s \<and> (\<forall>x<columns s. buffer s y x = default_char)
      \<longrightarrow> line_str s y = [] \<and> rstrip (display s ! y) = [])"
proof (intro conjI impI)
  have "screen_to_html s = join newline (html_lines s)"
    by (simp add: screen_to_html_def pop_blank_html_lines)
  then show "screen_to_html s
          = join newline (filter (\<lambda>l. l \<noteq> []) (map (line_str s) [0..<lines s]))"
    by (simp only: html_lines_filter)
next
  have "text_output s = join newline (text_lines s)"
    by (simp add: text_output_def pop_blank_text_lines)
  then show "text_output s = join newline (filter (\<lambda>l. l \<noteq> []) (map rstrip (display s)))"
    by (simp only: text_lines_filter)
next
  assume "y < lines s \<and> 0 < columns s \<and> (\<forall>x<columns s. buffer s y x = default_char)"
  then show "line_str s y = []" by (simp add: line_str_blank)
next
  assume "y < lines s \<and> 0 < columns s \<and> (\<forall>x<columns s. buffer s y x = default_char)"
  then show "rstrip (display s ! y) = []" by (simp add: display_blank)
qed

text \<open>The amended claim at the middle row of the three-row screen.\<close>

theorem blank_rows_dropped_by_both_renderings_witness:
  "1 < lines gap_screen \<and> 0 < columns gap_screen \<and> line_str gap_screen 1 = [] \<and>
   rstrip (display gap_screen ! 1) = [] \<and> screen_to_html gap_screen = ''a'' @ newline @ ''b''"
proof -
  have b: "\<forall>x<columns gap_screen. buffer gap_screen 1 x = default_char"
    by (simp add: gap_screen_def)
  have d: "1 < lines gap_screen \<and> 0 < columns gap_screen" by (simp add: gap_screen_def)
  have l: "map (line_str gap_screen) [0..<lines gap_screen] = [''a'', [], ''b'']"
    by code_simp
  from b d l show ?thesis using blank_rows_dropped_by_both_renderings [of gap_screen 1] by simp
qed


lemma last_index_fold:
  fixes P :: "nat \<Rightarrow> bool"
  defines "r n \<equiv> fold (\<lambda>x lc. if P x then x else lc) [0..<n] 0"
  shows "(\<forall>x<n. P x \<longrightarrow> x \<le> r n) \<and> ((\<exists>x<n. P x) \<longrightarrow> r n < n \<and> P (r n)) \<and>
         ((\<forall>x<n. \<not> P x) \<longrightarrow> r n = 0)"
proof (induction n)
  case 0
  show ?case by (simp add: r_def)
next
  case (Suc n)
  have step: "r (Suc n) = (if P n then n else r n)" by (simp add: r_def)
  show ?case
  proof (cases "P n")
    case True
    with step show ?thesis by auto
  next
    case False
    with step have eq: "r (Suc n) = r n" by simp
    from False have ex: "(\<exists>x<Suc n. P x) = (\<exists>x<n. P x)" using less_Suc_eq by auto
    from False have al: "(\<forall>x<Suc n. \<not> P x) = (\<forall>x<n. \<not> P x)" using less_Suc_eq by auto
    from False Suc have 1: "\<forall>x<Suc n. P x \<longrightarrow> x \<le> r (Suc n)"
      unfolding eq using less_Suc_eq by auto
    from Suc have 2: "(\<exists>x<Suc n. P x) \<longrightarrow> r (Suc n) < Suc n \<and> P (r (Suc n))"
      unfolding eq ex by auto
    from Suc have 3: "(\<forall>x<Suc n. \<not> P x) \<longrightarrow> r (Suc n) = 0"
      unfolding eq al by auto
    from 1 2 3 show ?thesis by blast
  qed
qed

lemma last_char_spec:
  "(\<forall>x<columns s. (data (buffer s y x) \<noteq> '' '' \<or> bg (buffer s y x) \<noteq> Name ''default'')
       \<longrightarrow> x \<le> last_char s y) \<and>
   ((\<exists>x<columns s. data (buffer s y x) \<noteq> '' '' \<or> bg (buffer s y x) \<noteq> Name ''default'')
       \<longrightarrow> last_char s y < columns s \<and>
           (data (buffer s y (last_char s y)) \<noteq> '' '' \<or>
            bg (buffer s y (last_char s y)) \<noteq> Name ''default'')) \<and>
   ((\<forall>x<columns s. \<not> (data (buffer s y x) \<noteq> '' '' \<or> bg (buffer s y x) \<noteq> Name ''default''))
       \<longrightarrow> last_char s y = 0)"
  unfolding last_char_def
  by (rule last_index_fold
      [where P = "\<lambda>x. data (buffer s y x) \<noteq> '' '' \<or> bg (buffer s y x) \<noteq> Name ''default''"
         and n = "columns s"])

lemma line_str_cong:
  assumes "last_char s' y = last_char s y"
    and "\<And>x. x \<le> last_char s y \<Longrightarrow> buffer s' y x = buffer s y x"
  shows "line_str s' y = line_str s y"
proof -
  have "map (\<lambda>x. char_to_html (buffer s' y x)) [0..<last_char s y + 1]
          = map (\<lambda>x. char_to_html (buffer s y x)) [0..<last_char s y + 1]"
    by (rule map_cong) (auto simp: assms(2))
  then show ?thesis by (simp only: line_str_def assms(1))
qed

text \<open>
  Claim C2 as stated fails: the scan for the cut-point does not look at the foreground. A
  space with a red foreground in column 2 differs from the blank default cell, yet the
  cut-point stays at column 0 and the cell is left out of the row.
\<close>

theorem colored_space_beyond_cut_counterexample:
  "buffer red_space_screen 0 2 = red_space \<and> fg red_space \<noteq> Name ''default'' \<and>
   last_char red_space_screen 0 = 0 \<and> line_str red_space_screen 0 = ''a''"
  by (simp add: red_space_screen_def red_space_def) code_simp

text \<open>
  Claim C2, amended. For every row, the cut-point of the HTML rendering is the last column
  whose glyph is not a space or whose background is not \<^verbatim>\<open>'default'\<close> (the foreground is
  not examined), and column 0 when the row has no such column. The row's output is made of
  the cells up to the cut-point only: the cells beyond it do not contribute.
\<close>

theorem html_cut_point:
  "(x < columns s \<and> (data (buffer s y x) \<noteq> '' '' \<or> bg (buffer s y x) \<noteq> Name ''default'')
       \<longrightarrow> x \<le> last_char s y) \<and>
   ((\<exists>x<columns s. data (buffer s y x) \<noteq> '' '' \<or> bg (buffer s y x) \<noteq> Name ''default'')
       \<longrightarrow> last_char s y < columns s \<and>
           (data (buffer s y (last_char s y)) \<noteq> '' '' \<or>
            bg (buffer s y (last_char s y)) \<noteq> Name ''default'')) \<and>
   ((\<forall>x<columns s. data (buffer s y x) = '' '' \<and> bg (buffer s y x) = Name ''default'')
       \<longrightarrow> last_char s y = 0) \<and>
   line_str s y
     = rstrip (concat (map (\<lambda>x. char_to_html (buffer s y x)) [0..<last_char s y + 1])) \<and>
   (last_char s' y = last_char s y \<and> (\<forall>x\<le>last_char s y. buffer s' y x = buffer s y x)
       \<longrightarrow> line_str s' y = line_str s y)"
proof -
  note sp = last_char_spec [of s y]
  have 1: "x < columns s \<and> (data (buffer s y x) \<noteq> '' '' \<or> bg (buffer s y x) \<noteq> Name ''default'')
       \<longrightarrow> x \<le> last_char s y"
    using sp by blast
  have 2: "(\<exists>x<columns s. data (buffer s y x) \<noteq> '' '' \<or> bg (buffer s y x) \<noteq> Name ''default'')
       \<longrightarrow> last_char s y < columns s \<and>
           (data (buffer s y (last_char s y)) \<noteq> '' '' \<or>
            bg (buffer s y (last_char s y)) \<noteq> Name ''default'')"
    using sp by blast
  have 3: "(\<forall>x<columns s. data (buffer s y x) = '' '' \<and> bg (buffer s y x) = Name ''default'')
       \<longrightarrow> last_char s y = 0"
    using sp by simp
  have 4: "line_str s y
     = rstrip (concat (map (\<lambda>x. char_to_html (buffer s y x)) [0..<last_char s y + 1]))"
    by (simp add: line_str_def)
  have 5: "last_char s' y = last_char s y \<and> (\<forall>x\<le>last_char s y. buffer s' y x = buffer s y x)
       \<longrightarrow> line_str s' y = line_str s y"
    using line_str_cong [of s' y s] by blast
  from 1 2 3 4 5 show ?thesis by blast
qed

text \<open>
  The amended claim on the row \<open>a\<close>, blank, red space, blank (cut-point 0, output \<open>a\<close>) and
  on a blank row (cut-point 0).
\<close>

theorem html_cut_point_witness:
  "0 < columns red_space_screen \<and> data (buffer red_space_screen 0 0) \<noteq> '' '' \<and>
   last_char red_space_screen 0 = 0 \<and> line_str red_space_screen 0 = ''a'' \<and>
   last_char gap_screen 1 = 0"
proof -
  have c: "0 < columns red_space_screen \<and> data (buffer red_space_screen 0 0) \<noteq> '' ''"
    by (simp add: red_space_screen_def glyph_def)
  have b: "\<forall>x<columns red_space_screen. 0 < x \<longrightarrow>
             data (buffer red_space_screen 0 x) = '' '' \<and>
             bg (buffer red_space_screen 0 x) = Name ''default''"
    by (simp add: red_space_screen_def red_space_def default_char_def)
  have g: "\<forall>x<columns gap_screen. data (buffer gap_screen 1 x) = '' '' \<and>
             bg (buffer gap_screen 1 x) = Name ''default''"
    by (simp add: gap_screen_def default_char_def)
  have e: "\<exists>x<columns red_space_screen. data (buffer red_space_screen 0 x) \<noteq> '' '' \<or>
             bg (buffer red_space_screen 0 x) \<noteq> Name ''default''"
    using c by blast
  have l: "last_char red_space_screen 0 = 0"
  proof (rule ccontr)
    assume n: "last_char red_space_screen 0 \<noteq> 0"
    from e html_cut_point [of 0 red_space_screen 0 red_space_screen]
    have "last_char red_space_screen 0 < columns red_space_screen \<and>
           (data (buffer red_space_screen 0 (last_char red_space_screen 0)) \<noteq> '' '' \<or>
            bg (buffer red_space_screen 0 (last_char red_space_screen 0)) \<noteq> Name ''default'')"
      by blast
    with b n show False by blast
  qed
  have h: "char_to_html (buffer red_space_screen 0 0) = ''a''"
    by (simp add: red_space_screen_def glyph_def char_to_html_def styles_def escape_html_def)
  have a: "rstrip ''a'' = ''a''" by (simp add: rstrip_def isspace_def)
  have s: "line_str red_space_screen 0 = ''a''"
    using html_cut_point [of 0 red_space_screen 0 red_space_screen] l h a by simp
  have k: "last_char gap_screen 1 = 0"
    using html_cut_point [of 0 gap_screen 1 gap_screen] g by blast
  from c l s k show ?thesis by simp
qed



section \<open>The command line\<close>







lemma clean_log_readable:
  assumes "disk w i = Some raw" and "feed (Screen 200 10000) (skip_header raw) = (scr, wn)"
  shows "clean_log feed i out h w =
     (if wn \<noteq> None \<and> warn_raises w then (w, Inl (PrintError ''stderr''))
      else deliver out (output_of h scr)
             (case wn of None \<Rightarrow> w | Some e \<Rightarrow> w\<lparr>stderr := stderr w @ [''Warning: '' @ e]\<rparr>))"
  using assms by (cases wn) (simp_all add: clean_log_def print_err_def)

lemma deliver_stdout:
  "out_file = None \<or> out_file = Some [] \<Longrightarrow>
     deliver out_file t w =
       (if print_raises w t then (w, Inl (PrintError ''stdout''))
        else (w\<lparr>stdout := stdout w @ [t]\<rparr>, Inr t))"
  by (auto simp: deliver_def print_out_def)













section \<open>The playback screen\<close>

lemma put_glyph_size:
  "columns (grid (put_glyph c e)) = columns (grid e) \<and> lines (grid (put_glyph c e)) = lines (grid e)"
  by (simp add: put_glyph_def set_cell_def scroll_up_def Let_def)

lemma write_glyphs_snoc: "write_glyphs (cs @ [c]) e = put_glyph c (write_glyphs cs e)"
  by (simp add: write_glyphs_def)

lemma cell_index_inj:
  "0 < (W::nat) \<Longrightarrow> i div W = n div W \<Longrightarrow> i mod W = n mod W \<Longrightarrow> i = n"
  by (metis div_mult_mod_eq)

lemma next_cell_same_row:
  "n mod W + 1 < (W::nat) \<Longrightarrow> Suc n div W = n div W \<and> Suc n mod W = n mod W + 1"
  by (simp add: div_Suc mod_Suc)

lemma next_cell_next_row:
  "0 < (W::nat) \<Longrightarrow> \<not> n mod W + 1 < W \<Longrightarrow> Suc n div W = n div W + 1 \<and> Suc n mod W = 0"
proof -
  assume W: "0 < W" and "\<not> n mod W + 1 < W"
  moreover from W have "n mod W < W" by simp
  ultimately have "Suc (n mod W) = W" by simp
  then show ?thesis by (simp add: div_Suc mod_Suc)
qed

lemma row_in_grid: "Suc n < W * H \<Longrightarrow> Suc n mod W = 0 \<Longrightarrow> Suc n div W < H"
  by (metis less_mult_imp_div_less mult.commute)

text \<open>
  While fewer glyphs are written than the grid has cells, nothing scrolls: the glyphs lie
  row by row from the top left corner, and the cursor is behind the last one.
\<close>

lemma write_glyphs_layout:
  assumes W: "0 < columns s"
  shows "length cs < columns s * lines s \<Longrightarrow>
     columns (grid (write_glyphs cs (start s))) = columns s \<and>
     lines (grid (write_glyphs cs (start s))) = lines s \<and>
     cursor_row (write_glyphs cs (start s)) = length cs div columns s \<and>
     cursor_col (write_glyphs cs (start s)) = length cs mod columns s \<and>
     (\<forall>i<length cs. buffer (grid (write_glyphs cs (start s))) (i div columns s) (i mod columns s)
                      = cs ! i)"
proof (induction cs rule: rev_induct)
  case Nil
  show ?case by (simp add: write_glyphs_def start_def)
next
  case (snoc c cs)
  let ?e = "write_glyphs cs (start s)"
  let ?W = "columns s"
  let ?n = "length cs"
  from snoc.prems have lt: "Suc ?n < ?W * lines s" by simp
  then have "?n < ?W * lines s" by simp
  with snoc.IH have ih:
    "columns (grid ?e) = ?W" "lines (grid ?e) = lines s"
    "cursor_row ?e = ?n div ?W" "cursor_col ?e = ?n mod ?W"
    "\<forall>i<?n. buffer (grid ?e) (i div ?W) (i mod ?W) = cs ! i"
    by simp_all
  have old: "\<And>i. i < ?n \<Longrightarrow>
      buffer (set_cell (?n div ?W) (?n mod ?W) c (grid ?e)) (i div ?W) (i mod ?W) = cs ! i"
  proof -
    fix i assume i: "i < ?n"
    then have "\<not> (i div ?W = ?n div ?W \<and> i mod ?W = ?n mod ?W)"
      using cell_index_inj [OF W, of i ?n] by auto
    with i ih(5) show "buffer (set_cell (?n div ?W) (?n mod ?W) c (grid ?e)) (i div ?W) (i mod ?W) = cs ! i"
      by (auto simp: set_cell_def)
  qed
  have new: "buffer (set_cell (?n div ?W) (?n mod ?W) c (grid ?e)) (?n div ?W) (?n mod ?W) = c"
    by (simp add: set_cell_def)
  have cells: "\<forall>i<Suc ?n. buffer (set_cell (?n div ?W) (?n mod ?W) c (grid ?e)) (i div ?W) (i mod ?W)
                 = (cs @ [c]) ! i"
    using old new by (auto simp: nth_append less_Suc_eq)
  have size: "columns (set_cell (?n div ?W) (?n mod ?W) c (grid ?e)) = ?W"
    "lines (set_cell (?n div ?W) (?n mod ?W) c (grid ?e)) = lines s"
    by (simp_all add: set_cell_def ih)
  show ?case
  proof (cases "?n mod ?W + 1 < ?W")
    case True
    then have p: "put_glyph c ?e
        = ?e\<lparr>grid := set_cell (?n div ?W) (?n mod ?W) c (grid ?e), cursor_col := ?n mod ?W + 1\<rparr>"
      by (simp add: put_glyph_def Let_def ih size)
    from True have a: "Suc ?n div ?W = ?n div ?W \<and> Suc ?n mod ?W = ?n mod ?W + 1"
      by (rule next_cell_same_row)
    show ?thesis
      unfolding write_glyphs_snoc p using a cells size ih(3) by simp
  next
    case False
    with W have a: "Suc ?n div ?W = ?n div ?W + 1 \<and> Suc ?n mod ?W = 0"
      by (rule next_cell_next_row)
    with lt have "?n div ?W + 1 < lines s"
      using row_in_grid [of ?n ?W "lines s"] by simp
    with False have p: "put_glyph c ?e
        = ?e\<lparr>grid := set_cell (?n div ?W) (?n mod ?W) c (grid ?e),
              cursor_row := ?n div ?W + 1, cursor_col := 0\<rparr>"
      by (simp add: put_glyph_def Let_def ih size)
    show ?thesis
      unfolding write_glyphs_snoc p using a cells size by simp
  qed
qed


lemma last_cell_index:
  "0 < (W::nat) \<Longrightarrow> 0 < H \<Longrightarrow> (W * H - 1) div W = H - 1 \<and> (W * H - 1) mod W = W - 1"
proof -
  assume "0 < W" and "0 < H"
  then obtain a b where W: "W = Suc a" and H: "H = Suc b"
    by (metis Suc_pred)
  have e: "Suc a * Suc b - 1 = a + b * Suc a" by simp
  have d: "(a + b * Suc a) div Suc a = b" using div_mult_self1 [of "Suc a" a b] by simp
  have m: "(a + b * Suc a) mod Suc a = a" using mod_mult_self1 [of a b "Suc a"] by simp
  show ?thesis unfolding W H e d m by simp
qed

text \<open>The glyph that fills the last cell of the grid makes it scroll by one row.\<close>

lemma write_glyphs_scroll:
  assumes W: "0 < columns s" and H: "1 < lines s" and full: "length cs = columns s * lines s"
  shows "cursor_row (write_glyphs cs (start s)) = lines s - 1 \<and>
         cursor_col (write_glyphs cs (start s)) = 0 \<and>
         (\<forall>x<columns s. buffer (grid (write_glyphs cs (start s))) 0 x = cs ! (columns s + x))"
proof -
  let ?W = "columns s" and ?H = "lines s"
  from W H full have ne: "cs \<noteq> []" by auto
  let ?xs = "butlast cs" and ?c = "last cs"
  let ?e = "write_glyphs ?xs (start s)"
  from ne have cs: "cs = ?xs @ [?c]" by simp
  from ne full have n: "length ?xs = ?W * ?H - 1" by simp
  with W H have "length ?xs < ?W * ?H" by simp
  from write_glyphs_layout [OF W this] have ih:
    "columns (grid ?e) = ?W" "lines (grid ?e) = ?H"
    "cursor_row ?e = length ?xs div ?W" "cursor_col ?e = length ?xs mod ?W"
    "\<forall>i<length ?xs. buffer (grid ?e) (i div ?W) (i mod ?W) = ?xs ! i"
    by simp_all
  from W H have lc: "(?W * ?H - 1) div ?W = ?H - 1 \<and> (?W * ?H - 1) mod ?W = ?W - 1"
    using last_cell_index [of ?W ?H] by simp
  with ih n have cur: "cursor_row ?e = ?H - 1" "cursor_col ?e = ?W - 1" by simp_all
  let ?s1 = "set_cell (?H - 1) (?W - 1) ?c (grid ?e)"
  have size: "columns ?s1 = ?W" "lines ?s1 = ?H" by (simp_all add: set_cell_def ih)
  from W H cur size have p: "put_glyph ?c ?e = ?e\<lparr>grid := scroll_up ?s1, cursor_col := 0\<rparr>"
    by (simp add: put_glyph_def Let_def)
  have e: "write_glyphs cs (start s) = ?e\<lparr>grid := scroll_up ?s1, cursor_col := 0\<rparr>"
    using cs write_glyphs_snoc [of ?xs ?c "start s"] p by simp
  have row0: "\<forall>x<?W. buffer (scroll_up ?s1) 0 x = cs ! (?W + x)"
  proof (intro allI impI)
    fix x assume x: "x < ?W"
    from H size have up: "buffer (scroll_up ?s1) 0 x = buffer ?s1 1 x"
      by (simp add: scroll_up_def)
    from x W have dm: "(?W + x) div ?W = 1 \<and> (?W + x) mod ?W = x"
      using div_add_self1 [of ?W x] by simp
    show "buffer (scroll_up ?s1) 0 x = cs ! (?W + x)"
    proof (cases "?W + x < length ?xs")
      case True
      with ih(5) dm have "buffer (grid ?e) 1 x = ?xs ! (?W + x)" by metis
      moreover from True have "?xs ! (?W + x) = cs ! (?W + x)" by (simp add: nth_butlast)
      moreover have "\<not> (1 = ?H - 1 \<and> x = ?W - 1)"
      proof
        assume c: "1 = ?H - 1 \<and> x = ?W - 1"
        with H have "?H = 2" by arith
        then have "?W * ?H = 2 * ?W" by simp
        with c True n W show False by simp
      qed
      ultimately show ?thesis unfolding up by (auto simp: set_cell_def)
    next
      case False
      with n x W H have i: "?W + x = ?W * ?H - 1" 
      proof -
        from H have "2 * ?W \<le> ?W * ?H" by (metis Suc_1 Suc_leI mult.commute mult_le_mono2)
        with False n x show ?thesis by arith
      qed
      then have l: "cs ! (?W + x) = ?c" using ne full by (simp add: last_conv_nth)
      from i lc dm have "1 = ?H - 1 \<and> x = ?W - 1" by metis
      then show ?thesis unfolding up l by (simp add: set_cell_def)
    qed
  qed
  show ?thesis unfolding e using cur row0 by simp
qed

lemma deliver_value: "snd (deliver out_file t w) = Inr t' \<Longrightarrow> t' = t"
  by (auto simp: deliver_def print_out_def split: option.splits if_splits prod.splits)


lemma clean_log_value:
  assumes "snd (clean_log feed i out_file h w) = Inr t"
  shows "\<exists>raw. disk w i = Some raw \<and> t = output_of h (fst (feed (Screen 200 10000) (skip_header raw)))"
proof (cases "disk w i")
  case None
  with assms show ?thesis by (simp add: clean_log_def)
next
  case (Some raw)
  obtain scr wn where fd: "feed (Screen 200 10000) (skip_header raw) = (scr, wn)"
    by (cases "feed (Screen 200 10000) (skip_header raw)")
  note c = clean_log_readable [of w i raw feed scr wn out_file h, OF Some fd]
  from assms c have "t = output_of h scr"
    by (cases "wn \<noteq> None \<and> warn_raises w") (auto dest: deliver_value)
  with Some fd show ?thesis by simp
qed

lemma clean_log_prints:
  assumes "disk w i = Some raw" and "snd (feed (Screen 200 10000) (skip_header raw)) = None"
    and "\<not> print_raises w (output_of h (fst (feed (Screen 200 10000) (skip_header raw))))"
  shows "clean_log feed i None h w =
     (w\<lparr>stdout := stdout w @ [output_of h (fst (feed (Screen 200 10000) (skip_header raw)))]\<rparr>,
      Inr (output_of h (fst (feed (Screen 200 10000) (skip_header raw)))))"
proof -
  obtain scr wn where fd: "feed (Screen 200 10000) (skip_header raw) = (scr, wn)"
    by (cases "feed (Screen 200 10000) (skip_header raw)")
  with assms(2) have wn: "wn = None" by simp
  from assms(3) fd have np: "\<not> print_raises w (output_of h scr)" by simp
  from clean_log_readable [of w i raw feed scr wn None h, OF assms(1) fd] wn np
  show ?thesis by (simp add: fd deliver_stdout)
qed

text \<open>
  Claim C9. Whatever the input, \<^verbatim>\<open>clean_log\<close> starts the playback on a new blank screen of
  200 columns and 10000 rows: what it prints and returns is rendered from the screen that
  the playback makes of exactly that screen and the bytes after the header line. On that
  grid, glyphs written one after the other lie 200 to a row: while fewer than 200 times
  10000 glyphs are written, the size of the grid stays, nothing scrolls, glyph \<open>i\<close> is in row
  \<open>i div 200\<close> and column \<open>i mod 200\<close>, and the cursor is behind the last glyph; the glyph
  that fills the last cell of row 10000 makes the grid scroll by one row.
\<close>

theorem playback_screen_dimensions:
  "columns (Screen 200 10000) = 200 \<and> lines (Screen 200 10000) = 10000 \<and>
   buffer (Screen 200 10000) y x = default_char \<and>
   (disk w input_file = Some raw \<and>
    snd (feed (Screen 200 10000) (skip_header raw)) = None \<and>
    \<not> print_raises w (output_of html (fst (feed (Screen 200 10000) (skip_header raw))))
      \<longrightarrow> clean_log feed input_file None html w =
            (w\<lparr>stdout := stdout w
                   @ [output_of html (fst (feed (Screen 200 10000) (skip_header raw)))]\<rparr>,
             Inr (output_of html (fst (feed (Screen 200 10000) (skip_header raw)))))) \<and>
   (snd (clean_log feed input_file output_file html w) = Inr t
      \<longrightarrow> (\<exists>raw. disk w input_file = Some raw \<and>
                 t = output_of html (fst (feed (Screen 200 10000) (skip_header raw))))) \<and>
   (length cs < 200 * 10000
      \<longrightarrow> columns (grid (write_glyphs cs (start (Screen 200 10000)))) = 200 \<and>
          lines (grid (write_glyphs cs (start (Screen 200 10000)))) = 10000 \<and>
          cursor_row (write_glyphs cs (start (Screen 200 10000))) = length cs div 200 \<and>
          cursor_col (write_glyphs cs (start (Screen 200 10000))) = length cs mod 200 \<and>
          (\<forall>i<length cs.
             buffer (grid (write_glyphs cs (start (Screen 200 10000)))) (i div 200) (i mod 200)
               = cs ! i)) \<and>
   (length cs = 200 * 10000
      \<longrightarrow> cursor_row (write_glyphs cs (start (Screen 200 10000))) = 9999 \<and>
          cursor_col (write_glyphs cs (start (Screen 200 10000))) = 0 \<and>
          (\<forall>x<200. buffer (grid (write_glyphs cs (start (Screen 200 10000)))) 0 x
                     = cs ! (200 + x)))"
proof -
  have c: "columns (Screen 200 10000) = 200" and l: "lines (Screen 200 10000) = 10000"
    and b: "buffer (Screen 200 10000) y x = default_char"
    by (simp_all add: Screen_def)
  have 1: "disk w input_file = Some raw \<and>
    snd (feed (Screen 200 10000) (skip_header raw)) = None \<and>
    \<not> print_raises w (output_of html (fst (feed (Screen 200 10000) (skip_header raw))))
      \<longrightarrow> clean_log feed input_file None html w =
            (w\<lparr>stdout := stdout w
                   @ [output_of html (fst (feed (Screen 200 10000) (skip_header raw)))]\<rparr>,
             Inr (output_of html (fst (feed (Screen 200 10000) (skip_header raw)))))"
    using clean_log_prints [of w input_file raw feed html] by blast
  have 2: "snd (clean_log feed input_file output_file html w) = Inr t
      \<longrightarrow> (\<exists>raw. disk w input_file = Some raw \<and>
                 t = output_of html (fst (feed (Screen 200 10000) (skip_header raw))))"
    using clean_log_value [of feed input_file output_file html w t] by blast
  have 3: "length cs < 200 * 10000
      \<longrightarrow> columns (grid (write_glyphs cs (start (Screen 200 10000)))) = 200 \<and>
          lines (grid (write_glyphs cs (start (Screen 200 10000)))) = 10000 \<and>
          cursor_row (write_glyphs cs (start (Screen 200 10000))) = length cs div 200 \<and>
          cursor_col (write_glyphs cs (start (Screen 200 10000))) = length cs mod 200 \<and>
          (\<forall>i<length cs.
             buffer (grid (write_glyphs cs (start (Screen 200 10000)))) (i div 200) (i mod 200)
               = cs ! i)"
    using write_glyphs_layout [of "Screen 200 10000" cs] unfolding c l by simp
  have 4: "length cs = 200 * 10000
      \<longrightarrow> cursor_row (write_glyphs cs (start (Screen 200 10000))) = 9999 \<and>
          cursor_col (write_glyphs cs (start (Screen 200 10000))) = 0 \<and>
          (\<forall>x<200. buffer (grid (write_glyphs cs (start (Screen 200 10000)))) 0 x
                     = cs ! (200 + x))"
    using write_glyphs_scroll [of "Screen 200 10000" cs] unfolding c l by simp
  from c l b 1 2 3 4 show ?thesis by blast
qed

text \<open>
  The claim on the session log played back as plain text, on 201 glyphs (the last one is
  the first of the second row) and on 2000000 glyphs (the grid has scrolled once).
\<close>

theorem playback_screen_dimensions_witness:
  "clean_log text_playback ''session.log'' None False log_world
     = (log_world\<lparr>stdout := [text_output (fst (text_playback (Screen 200 10000) ''Hello''))]\<rparr>,
        Inr (text_output (fst (text_playback (Screen 200 10000) ''Hello'')))) \<and>
   cursor_row (write_glyphs (replicate 201 plain_a) (start (Screen 200 10000))) = 1 \<and>
   cursor_col (write_glyphs (replicate 201 plain_a) (start (Screen 200 10000))) = 1 \<and>
   buffer (grid (write_glyphs (replicate 201 plain_a) (start (Screen 200 10000)))) 0 199 = plain_a \<and>
   buffer (grid (write_glyphs (replicate 201 plain_a) (start (Screen 200 10000)))) 1 0 = plain_a \<and>
   cursor_row (write_glyphs (replicate 2000000 plain_a) (start (Screen 200 10000))) = 9999"
proof -
  let ?raw = "''Script started'' @ newline @ ''Hello''"
  have h: "skip_header ?raw = ''Hello''"
    by (simp add: skip_header_def newline_def)
  have d: "disk log_world ''session.log'' = Some ?raw" by (simp add: log_world_def)
  have n: "snd (text_playback (Screen 200 10000) (skip_header ?raw)) = None"
    by (simp add: text_playback_def)
  have p: "\<not> print_raises log_world
              (output_of False (fst (text_playback (Screen 200 10000) (skip_header ?raw))))"
    by (simp add: log_world_def)
  note t1 = playback_screen_dimensions [where w = log_world and input_file = "''session.log''" and raw = ?raw
      and feed = text_playback and html = False and cs = "[]" and y = 0 and x = 0
      and output_file = None and t = "[]"]
  from t1 d n p have "clean_log text_playback ''session.log'' None False log_world =
      (log_world\<lparr>stdout := stdout log_world
             @ [output_of False (fst (text_playback (Screen 200 10000) (skip_header ?raw)))]\<rparr>,
       Inr (output_of False (fst (text_playback (Screen 200 10000) (skip_header ?raw)))))"
    by blast
  moreover have "stdout log_world = []" by (simp add: log_world_def)
  ultimately have 1: "clean_log text_playback ''session.log'' None False log_world
     = (log_world\<lparr>stdout := [text_output (fst (text_playback (Screen 200 10000) ''Hello''))]\<rparr>,
        Inr (text_output (fst (text_playback (Screen 200 10000) ''Hello''))))"
    unfolding h by (simp add: output_of_def)
  let ?cs = "replicate 201 plain_a"
  let ?e = "write_glyphs ?cs (start (Screen 200 10000))"
  note t2 = playback_screen_dimensions [where cs = ?cs and feed = text_playback and y = 0 and x = 0
      and output_file = None and t = "[]" and w = log_world and input_file = "[]" and raw = "[]"
      and html = False]
  have len: "length ?cs < 200 * 10000" by simp
  from t2 len have lay:
    "cursor_row ?e = length ?cs div 200 \<and> cursor_col ?e = length ?cs mod 200 \<and>
     (\<forall>i<length ?cs. buffer (grid ?e) (i div 200) (i mod 200) = ?cs ! i)"
    by blast
  have 2: "cursor_row ?e = 1 \<and> cursor_col ?e = 1"
    using lay by simp
  have c199: "(199::nat) < length ?cs \<and> (199::nat) div 200 = 0 \<and> (199::nat) mod 200 = 199 \<and>
              ?cs ! 199 = plain_a"
    by simp
  have c200: "(200::nat) < length ?cs \<and> (200::nat) div 200 = 1 \<and> (200::nat) mod 200 = 0 \<and>
              ?cs ! 200 = plain_a"
    by simp
  have 3: "buffer (grid ?e) 0 199 = plain_a"
    using lay c199 by metis
  have 4: "buffer (grid ?e) 1 0 = plain_a"
    using lay c200 by metis
  let ?full = "replicate 2000000 plain_a"
  note t3 = playback_screen_dimensions [where cs = ?full and feed = text_playback and y = 0 and x = 0
      and output_file = None and t = "[]" and w = log_world and input_file = "[]" and raw = "[]"
      and html = False]
  have "length ?full = 200 * 10000" by simp
  with t3 have 5: "cursor_row (write_glyphs ?full (start (Screen 200 10000))) = 9999"
    by blast
  from 1 2 3 4 5 show ?thesis by blast
qed

section \<open>The server: conversion and the log endpoint\<close>

lemma startswith_append: "startswith (e @ b) e"
  by (induction e) simp_all

lemma contains_append: "contains (a @ e @ b) e"
proof (induction a)
  case Nil
  show ?case by (cases "e @ b") (use startswith_append [of e b] in auto)
next
  case (Cons x a)
  then show ?case by simp
qed

lemma error_page_contains: "contains (error_page e) e"
  unfolding error_page_def by (rule contains_append)

lemma view_log_rejects:
  "contains f ''/'' \<or> contains f ''..'' \<or> \<not> endswith f ''.log'' \<Longrightarrow>
     view_log fmt run f s = (Abort 400, s)"
  by (auto simp: view_log_def)

lemma view_log_accepts:
  "\<not> contains f ''/'' \<Longrightarrow> \<not> contains f ''..'' \<Longrightarrow> endswith f ''.log'' \<Longrightarrow>
     view_log fmt run f s =
       (case convert_log_to_html fmt run f s of
          (None, s') \<Rightarrow> (Abort 404, s')
        | (Some html, s') \<Rightarrow> (Response html ''text/html'', s'))"
  by (simp add: view_log_def)

lemma convert_trace:
  "\<exists>ops. trace (snd (convert_log_to_html fmt run f s)) = trace s @ Exists f # ops"
  by (auto simp: convert_log_to_html_def touch_def Let_def
      split: option.splits sum.splits prod.splits)

lemma convert_fresh:
  "log_dir s f = Some lg \<Longrightarrow> log_dir s (replace ''.log'' ''.html'' f) = Some h \<Longrightarrow>
   mtime lg \<le> mtime h \<Longrightarrow>
     convert_log_to_html fmt run f s
       = (Some (content h),
          touch [Exists f, Exists (replace ''.log'' ''.html'' f), Stat (replace ''.log'' ''.html'' f),
                 Stat f, ReadText (replace ''.log'' ''.html'' f)] s)"
  by (simp add: convert_log_to_html_def Let_def)

lemma convert_not_fresh:
  assumes "log_dir s f = Some lg"
    and "\<And>h. log_dir s (replace ''.log'' ''.html'' f) = Some h \<Longrightarrow> mtime h < mtime lg"
  shows "fst (convert_log_to_html fmt run f s) =
     (case html_cache s (cache_key fmt f (mtime lg)) of
        Some page \<Rightarrow> Some page
      | None \<Rightarrow>
          (case run f of
             Inl e \<Rightarrow> Some (error_page e)
           | Inr (returncode, out) \<Rightarrow> if returncode = 0 then Some out else None))"
proof (cases "log_dir s (replace ''.log'' ''.html'' f)")
  case None
  with assms(1) show ?thesis
    by (simp add: convert_log_to_html_def Let_def split: option.splits sum.splits prod.splits)
next
  case (Some h)
  with assms(2) have "\<not> mtime lg \<le> mtime h" by (simp add: not_le)
  with Some assms(1) show ?thesis
    by (simp add: convert_log_to_html_def Let_def split: option.splits sum.splits prod.splits)
qed

lemma convert_read_text:
  "ReadText p \<in> set (drop (length (trace s)) (trace (snd (convert_log_to_html fmt run f s)))) \<Longrightarrow>
     p = replace ''.log'' ''.html'' f \<and>
     (\<exists>lg h. log_dir s f = Some lg \<and> log_dir s p = Some h \<and> mtime lg \<le> mtime h \<and>
             fst (convert_log_to_html fmt run f s) = Some (content h))"
  by (auto simp: convert_log_to_html_def touch_def Let_def
      split: option.splits sum.splits prod.splits if_splits)

lemma convert_cache_change:
  "html_cache (snd (convert_log_to_html fmt run f s)) k \<noteq> html_cache s k \<Longrightarrow>
     \<exists>lg out. log_dir s f = Some lg \<and> k = cache_key fmt f (mtime lg) \<and> run f = Inr (0, out) \<and>
              html_cache (snd (convert_log_to_html fmt run f s)) k = Some out \<and>
              fst (convert_log_to_html fmt run f s) = Some out"
  by (auto simp: convert_log_to_html_def touch_def Let_def
      split: option.splits sum.splits prod.splits if_splits)

lemma convert_cache_local:
  "log_dir s f = Some lg \<Longrightarrow> c (cache_key fmt f (mtime lg)) = html_cache s (cache_key fmt f (mtime lg))
     \<Longrightarrow> fst (convert_log_to_html fmt run f (s\<lparr>html_cache := c\<rparr>))
           = fst (convert_log_to_html fmt run f s)"
  by (auto simp: convert_log_to_html_def touch_def Let_def
      split: option.splits sum.splits prod.splits if_splits)

lemma convert_stale_artifact:
  assumes "log_dir s f = Some lg" and "log_dir s (replace ''.log'' ''.html'' f) = Some h"
    and "mtime h < mtime lg"
  shows "fst (convert_log_to_html fmt run f (s\<lparr>log_dir := (log_dir s)(replace ''.log'' ''.html'' f := None)\<rparr>))
           = fst (convert_log_to_html fmt run f s)"
proof -
  let ?s' = "s\<lparr>log_dir := (log_dir s)(replace ''.log'' ''.html'' f := None)\<rparr>"
  from assms have ne: "replace ''.log'' ''.html'' f \<noteq> f" by auto
  then have lg': "log_dir ?s' f = Some lg" using assms(1) by simp
  have 1: "fst (convert_log_to_html fmt run f s) =
     (case html_cache s (cache_key fmt f (mtime lg)) of
        Some page \<Rightarrow> Some page
      | None \<Rightarrow>
          (case run f of
             Inl e \<Rightarrow> Some (error_page e)
           | Inr (returncode, out) \<Rightarrow> if returncode = 0 then Some out else None))"
    by (rule convert_not_fresh) (use assms in auto)
  have 2: "fst (convert_log_to_html fmt run f ?s') =
     (case html_cache ?s' (cache_key fmt f (mtime lg)) of
        Some page \<Rightarrow> Some page
      | None \<Rightarrow>
          (case run f of
             Inl e \<Rightarrow> Some (error_page e)
           | Inr (returncode, out) \<Rightarrow> if returncode = 0 then Some out else None))"
    by (rule convert_not_fresh) (use lg' in auto)
  from 1 2 show ?thesis by simp
qed

lemma cache_key_time: "inj fmt \<Longrightarrow> cache_key fmt f m = cache_key fmt f m' \<Longrightarrow> m = m'"
  by (simp add: cache_key_def inj_eq)

lemma inj_tally: "inj tally"
proof (rule injI)
  fix n m assume "tally n = tally m"
  then have "length (tally n) = length (tally m)" by simp
  then show "n = m" by (simp add: tally_def)
qed

text \<open>
  Claim C7. For a log that exists, \<^verbatim>\<open>convert_log_to_html\<close> reads the pre-converted HTML
  file only when that file's modification time is not older than the log's, and then
  returns its text; an older HTML file is ignored, the result being what it would be
  without the file. The in-memory cache is read and written under the key made of the log's
  name and its current modification time only: the result does not depend on any other
  entry, an entry is stored only under that key and holds the output of a successful
  conversion, and (the printing of times being injective) a key made with another
  modification time of the same log is a different key.
\<close>

theorem html_artifact_and_cache_freshness:
  assumes "log_dir s f = Some lg"
  shows
  "(ReadText p \<in> set (drop (length (trace s)) (trace (snd (convert_log_to_html fmt run f s))))
      \<longrightarrow> p = replace ''.log'' ''.html'' f \<and>
          (\<exists>h. log_dir s p = Some h \<and> mtime lg \<le> mtime h \<and>
               fst (convert_log_to_html fmt run f s) = Some (content h))) \<and>
   (log_dir s (replace ''.log'' ''.html'' f) = Some h \<and> mtime h < mtime lg
      \<longrightarrow> fst (convert_log_to_html fmt run f s)
            = fst (convert_log_to_html fmt run f
                     (s\<lparr>log_dir := (log_dir s)(replace ''.log'' ''.html'' f := None)\<rparr>))) \<and>
   (c (cache_key fmt f (mtime lg)) = html_cache s (cache_key fmt f (mtime lg))
      \<longrightarrow> fst (convert_log_to_html fmt run f (s\<lparr>html_cache := c\<rparr>))
            = fst (convert_log_to_html fmt run f s)) \<and>
   (html_cache (snd (convert_log_to_html fmt run f s)) k \<noteq> html_cache s k
      \<longrightarrow> k = cache_key fmt f (mtime lg) \<and>
          (\<exists>out. run f = Inr (0, out) \<and>
                 html_cache (snd (convert_log_to_html fmt run f s)) k = Some out)) \<and>
   (inj fmt \<and> m \<noteq> mtime lg \<longrightarrow> cache_key fmt f m \<noteq> cache_key fmt f (mtime lg))"
proof (intro conjI impI)
  assume "ReadText p \<in> set (drop (length (trace s)) (trace (snd (convert_log_to_html fmt run f s))))"
  from convert_read_text [OF this] assms
  show "p = replace ''.log'' ''.html'' f"
    and "\<exists>h. log_dir s p = Some h \<and> mtime lg \<le> mtime h \<and>
               fst (convert_log_to_html fmt run f s) = Some (content h)"
    by auto
next
  assume "log_dir s (replace ''.log'' ''.html'' f) = Some h \<and> mtime h < mtime lg"
  then show "fst (convert_log_to_html fmt run f s)
            = fst (convert_log_to_html fmt run f
                     (s\<lparr>log_dir := (log_dir s)(replace ''.log'' ''.html'' f := None)\<rparr>))"
    using convert_stale_artifact [OF assms, of h fmt run] by simp
next
  assume "c (cache_key fmt f (mtime lg)) = html_cache s (cache_key fmt f (mtime lg))"
  then show "fst (convert_log_to_html fmt run f (s\<lparr>html_cache := c\<rparr>))
            = fst (convert_log_to_html fmt run f s)"
    by (rule convert_cache_local [OF assms])
next
  assume "html_cache (snd (convert_log_to_html fmt run f s)) k \<noteq> html_cache s k"
  from convert_cache_change [OF this] assms
  show "k = cache_key fmt f (mtime lg)"
    and "\<exists>out. run f = Inr (0, out) \<and>
                 html_cache (snd (convert_log_to_html fmt run f s)) k = Some out"
    by auto
next
  assume "inj fmt \<and> m \<noteq> mtime lg"
  then show "cache_key fmt f m \<noteq> cache_key fmt f (mtime lg)"
    using cache_key_time [of fmt f m "mtime lg"] by blast
qed


text \<open>
  The claim on a log of time 5: beside an HTML file of time 3 and a cache entry made at
  time 3, and beside an HTML file of time 7.
\<close>

theorem html_artifact_and_cache_freshness_witness:
  "fst (convert_log_to_html tally ok_run ''a.log'' stale_artifact)
     = fst (convert_log_to_html tally ok_run ''a.log''
              (stale_artifact\<lparr>log_dir := (log_dir stale_artifact)(''a.html'' := None)\<rparr>)) \<and>
   cache_key tally ''a.log'' 3 \<noteq> cache_key tally ''a.log'' 5 \<and>
   fst (convert_log_to_html tally ok_run ''a.log'' fresh_artifact) = Some ''new page''"
proof -
  have r: "replace ''.log'' ''.html'' ''a.log'' = ''a.html''" by simp
  have l: "log_dir stale_artifact ''a.log'' = Some \<lparr>mtime = 5, content = ''raw''\<rparr>"
    by (simp add: stale_artifact_def)
  have h: "log_dir stale_artifact ''a.html'' = Some \<lparr>mtime = 3, content = ''old page''\<rparr>"
    by (simp add: stale_artifact_def)
  have 1: "fst (convert_log_to_html tally ok_run ''a.log'' stale_artifact)
     = fst (convert_log_to_html tally ok_run ''a.log''
              (stale_artifact\<lparr>log_dir := (log_dir stale_artifact)(''a.html'' := None)\<rparr>))"
    using html_artifact_and_cache_freshness [OF l, where h = "\<lparr>mtime = 3, content = ''old page''\<rparr>" and fmt = tally
        and run = ok_run] r h
    by simp
  have 2: "cache_key tally ''a.log'' 3 \<noteq> cache_key tally ''a.log'' 5"
    using html_artifact_and_cache_freshness [OF l, where m = 3 and fmt = tally] inj_tally by simp
  have l': "log_dir fresh_artifact ''a.log'' = Some \<lparr>mtime = 5, content = ''raw''\<rparr>"
    by (simp add: fresh_artifact_def)
  have t: "ReadText ''a.html''
             \<in> set (drop (length (trace fresh_artifact))
                      (trace (snd (convert_log_to_html tally ok_run ''a.log'' fresh_artifact))))"
    by (simp add: convert_log_to_html_def fresh_artifact_def touch_def Let_def)
  have 3: "fst (convert_log_to_html tally ok_run ''a.log'' fresh_artifact) = Some ''new page''"
    using html_artifact_and_cache_freshness [OF l', where p = "''a.html''" and fmt = tally and run = ok_run] t
    by (auto simp: fresh_artifact_def)
  from 1 2 3 show ?thesis by simp
qed

text \<open>
  Claim C8 as stated fails when the clean script runs and exits with a non-zero return
  code: no exception is raised, \<^verbatim>\<open>convert_log_to_html\<close> returns \<^verbatim>\<open>None\<close>, and the endpoint
  answers 404 instead of a page with the error text.
\<close>

theorem nonzero_exit_gives_404_counterexample:
  "failing_run ''a.log'' = Inr (1, ''Traceback'') \<and>
   fst (view_log tally failing_run ''a.log'' one_log) = Abort 404"
  by (simp add: failing_run_def view_log_def convert_log_to_html_def one_log_def endswith_def
      touch_def)

text \<open>
  Claim C8, amended. For an accepted filename whose log exists, with no fresh HTML file
  and no cache entry, so that the conversion runs: when \<^verbatim>\<open>subprocess.run\<close> raises an
  exception, the caller of the log-viewing endpoint receives an HTML page that contains the
  text of the exception; when the subprocess returns a non-zero return code, the endpoint
  answers 404; when it returns zero, the caller receives its output.
\<close>

theorem conversion_failure_response:
  assumes "\<not> contains f ''/''" and "\<not> contains f ''..''" and "endswith f ''.log''"
    and "log_dir s f = Some lg"
    and "\<forall>h. log_dir s (replace ''.log'' ''.html'' f) = Some h \<longrightarrow> mtime h < mtime lg"
    and "html_cache s (cache_key fmt f (mtime lg)) = None"
  shows
  "(run f = Inl e \<longrightarrow>
      fst (view_log fmt run f s) = Response (error_page e) ''text/html'' \<and>
      contains (error_page e) e) \<and>
   (run f = Inr (returncode, out) \<and> returncode \<noteq> 0 \<longrightarrow>
      fst (view_log fmt run f s) = Abort 404) \<and>
   (run f = Inr (0, out) \<longrightarrow> fst (view_log fmt run f s) = Response out ''text/html'')"
proof -
  have c: "fst (convert_log_to_html fmt run f s) =
     (case run f of
        Inl e \<Rightarrow> Some (error_page e)
      | Inr (returncode, out) \<Rightarrow> if returncode = 0 then Some out else None)"
    using convert_not_fresh [of s f lg fmt run] assms(4,5,6) by simp
  have v: "fst (view_log fmt run f s) =
     (case fst (convert_log_to_html fmt run f s) of
        None \<Rightarrow> Abort 404 | Some html \<Rightarrow> Response html ''text/html'')"
    using assms(1,2,3) by (simp add: view_log_accepts split: prod.splits option.splits)
  show ?thesis by (simp add: v c error_page_contains)
qed

text \<open>The amended claim for a subprocess that times out and for one that exits with 1.\<close>

theorem conversion_failure_response_witness:
  "fst (view_log tally raising_run ''a.log'' one_log)
     = Response ''<html><body><pre>Error converting log: timed out</pre></body></html>'' ''text/html'' \<and>
   contains (error_page ''timed out'') ''timed out'' \<and>
   fst (view_log tally failing_run ''a.log'' one_log) = Abort 404"
proof -
  have a: "\<not> contains ''a.log'' ''/'' \<and> \<not> contains ''a.log'' ''..'' \<and> endswith ''a.log'' ''.log''"
    by (simp add: endswith_def)
  have l: "log_dir one_log ''a.log'' = Some \<lparr>mtime = 5, content = ''raw''\<rparr>"
    by (simp add: one_log_def)
  have n: "\<forall>h. log_dir one_log (replace ''.log'' ''.html'' ''a.log'') = Some h
             \<longrightarrow> mtime h < mtime \<lparr>mtime = 5::nat, content = ''raw''\<rparr>"
    by (simp add: one_log_def)
  have k: "html_cache one_log (cache_key tally ''a.log'' (mtime \<lparr>mtime = 5::nat, content = ''raw''\<rparr>)) = None"
    by (simp add: one_log_def)
  have 1: "fst (view_log tally raising_run ''a.log'' one_log)
     = Response ''<html><body><pre>Error converting log: timed out</pre></body></html>'' ''text/html'' \<and>
       contains (error_page ''timed out'') ''timed out''"
    using conversion_failure_response [of "''a.log''" one_log "\<lparr>mtime = 5, content = ''raw''\<rparr>" tally raising_run
        "''timed out''"] a l n k
    by (simp add: raising_run_def error_page_def)
  have 2: "fst (view_log tally failing_run ''a.log'' one_log) = Abort 404"
    using conversion_failure_response [of "''a.log''" one_log "\<lparr>mtime = 5, content = ''raw''\<rparr>" tally failing_run
        _ 1 "''Traceback''"] a l n k
    by (simp add: failing_run_def)
  from 1 2 show ?thesis by simp
qed

text \<open>
  Claim C10. \<^verbatim>\<open>view_log\<close> answers 400 and leaves the state as it is, with no access to the
  file system, whenever the filename contains \<^verbatim>\<open>/\<close> or \<^verbatim>\<open>..\<close> or does not end in
  \<^verbatim>\<open>.log\<close>; only a filename that passes the three checks reaches the conversion (which
  begins by testing whether the log exists), and then a conversion result of \<^verbatim>\<open>None\<close> gives
  404 and any other result is the body of the response.
\<close>

theorem view_log_filename_checks:
  "(contains f ''/'' \<or> contains f ''..'' \<or> \<not> endswith f ''.log''
      \<longrightarrow> view_log fmt run f s = (Abort 400, s)) \<and>
   (trace (snd (view_log fmt run f s)) \<noteq> trace s
      \<longrightarrow> \<not> contains f ''/'' \<and> \<not> contains f ''..'' \<and> endswith f ''.log'') \<and>
   (\<not> contains f ''/'' \<and> \<not> contains f ''..'' \<and> endswith f ''.log''
      \<longrightarrow> snd (view_log fmt run f s) = snd (convert_log_to_html fmt run f s) \<and>
          (\<exists>ops. trace (snd (view_log fmt run f s)) = trace s @ Exists f # ops) \<and>
          fst (view_log fmt run f s)
            = (case fst (convert_log_to_html fmt run f s) of
                 None \<Rightarrow> Abort 404
               | Some html \<Rightarrow> Response html ''text/html''))"
proof (intro conjI impI)
  assume "contains f ''/'' \<or> contains f ''..'' \<or> \<not> endswith f ''.log''"
  then show "view_log fmt run f s = (Abort 400, s)" by (rule view_log_rejects)
next
  assume t: "trace (snd (view_log fmt run f s)) \<noteq> trace s"
  have "\<not> (contains f ''/'' \<or> contains f ''..'' \<or> \<not> endswith f ''.log'')"
  proof
    assume "contains f ''/'' \<or> contains f ''..'' \<or> \<not> endswith f ''.log''"
    then have "view_log fmt run f s = (Abort 400, s)" by (rule view_log_rejects)
    with t show False by simp
  qed
  then show "\<not> contains f ''/''" and "\<not> contains f ''..''" and "endswith f ''.log''" by auto
next
  assume a: "\<not> contains f ''/'' \<and> \<not> contains f ''..'' \<and> endswith f ''.log''"
  then have v: "view_log fmt run f s =
       (case convert_log_to_html fmt run f s of
          (None, s') \<Rightarrow> (Abort 404, s')
        | (Some html, s') \<Rightarrow> (Response html ''text/html'', s'))"
    by (simp add: view_log_accepts)
  then show s: "snd (view_log fmt run f s) = snd (convert_log_to_html fmt run f s)"
    by (simp split: prod.splits option.splits)
  show "\<exists>ops. trace (snd (view_log fmt run f s)) = trace s @ Exists f # ops"
    unfolding s by (rule convert_trace)
  from v show "fst (view_log fmt run f s)
            = (case fst (convert_log_to_html fmt run f s) of
                 None \<Rightarrow> Abort 404
               | Some html \<Rightarrow> Response html ''text/html'')"
    by (simp split: prod.splits option.splits)
qed

text \<open>The claim on two rejected names, a log that does not exist and one that does.\<close>

theorem view_log_filename_checks_witness:
  "view_log tally ok_run ''../a.log'' one_log = (Abort 400, one_log) \<and>
   view_log tally ok_run ''a.txt'' one_log = (Abort 400, one_log) \<and>
   fst (view_log tally ok_run ''b.log'' one_log) = Abort 404 \<and>
   trace (snd (view_log tally ok_run ''b.log'' one_log)) = [Exists ''b.log''] \<and>
   fst (view_log tally ok_run ''a.log'' one_log) = Response ''<html>ok</html>'' ''text/html''"
proof -
  have 1: "view_log tally ok_run ''../a.log'' one_log = (Abort 400, one_log)"
    using view_log_filename_checks [of "''../a.log''" tally ok_run one_log] by simp
  have 2: "view_log tally ok_run ''a.txt'' one_log = (Abort 400, one_log)"
    using view_log_filename_checks [of "''a.txt''" tally ok_run one_log] by (simp add: endswith_def)
  have b: "convert_log_to_html tally ok_run ''b.log'' one_log = (None, touch [Exists ''b.log''] one_log)"
    by (simp add: convert_log_to_html_def one_log_def)
  have 3: "fst (view_log tally ok_run ''b.log'' one_log) = Abort 404 \<and>
           trace (snd (view_log tally ok_run ''b.log'' one_log)) = [Exists ''b.log'']"
    using view_log_filename_checks [of "''b.log''" tally ok_run one_log] b
    by (simp add: endswith_def touch_def one_log_def)
  have c: "fst (convert_log_to_html tally ok_run ''a.log'' one_log) = Some ''<html>ok</html>''"
    by (simp add: convert_log_to_html_def one_log_def ok_run_def touch_def)
  have 4: "fst (view_log tally ok_run ''a.log'' one_log) = Response ''<html>ok</html>'' ''text/html''"
    using view_log_filename_checks [of "''a.log''" tally ok_run one_log] c by (simp add: endswith_def)
  from 1 2 3 4 show ?thesis by simp
qed

end
